theory Spec2Isabelle
  imports Complex_Main "HOL-Library.AList" "HOL-Library.Char_ord" "HOL-Library.List_Lexorder"
    "HOL-Library.Multiset"
begin

section \<open>JavaScript values\<close>

text \<open>
  The forecasting and recommendation code of the personal finance backend
  (\<^verbatim>\<open>backend/server.js\<close>, \<^verbatim>\<open>backend/utils/mlModel.js\<close>,
  \<^verbatim>\<open>backend/utils/recommendations.js\<close>) is embedded function by function.

  Exceptions are values of \<open>js_error\<close>; a function that can throw returns
  \<open>js_error + 'a\<close>.
\<close>

datatype js_error = RangeError | ReferenceError | TypeError

subsection \<open>Numbers\<close>

text \<open>
  A Number is an IEEE 754 double: a finite value, one of the two infinities or NaN.
  A finite value is carried as the real number it denotes. Every arithmetic operation
  computes the exact result and rounds it with \<open>rnd64\<close>: to the nearest double, a tie to
  the one with the even significand, and to an infinity from \<open>2^1024 - 2^970\<close> on.
  \<open>quantum_exponent x\<close> is the exponent of the last bit of the 53-bit significand of
  \<open>x\<close>, which is \<open>- 1074\<close> for the subnormal numbers.

  Zero is unsigned. The two zeros of a double are equal under every comparison of the
  code and print alike; they differ only as divisors. The amounts of validated
  transactions are positive (server.js, line 64), and then no divisor of the code is the
  negative zero: each is a length, a literal, or a sum or a mean of numbers that are not
  negative, built from sums that start at \<open>+0\<close>.
\<close>

datatype jsnum = Fin real | PosInf | NegInf | NaN

definition signed_inf :: "bool \<Rightarrow> jsnum" where
  "signed_inf negative = (if negative then NegInf else PosInf)"

definition round_half_even :: "real \<Rightarrow> int" where
  "round_half_even z =
     (let f = \<lfloor>z\<rfloor>; d = z - of_int f
      in if d < 1 / 2 then f else if 1 / 2 < d then f + 1 else if even f then f else f + 1)"

definition quantum_exponent :: "real \<Rightarrow> int" where
  "quantum_exponent x = max (\<lfloor>log 2 \<bar>x\<bar>\<rfloor> - 52) (- 1074)"

definition rnd64 :: "real \<Rightarrow> jsnum" where
  "rnd64 x =
     (if x = 0 then Fin 0
      else
        (let q = quantum_exponent x;
             y = of_int (round_half_even (x / 2 powr q)) * 2 powr q
         in if 2 ^ 1024 \<le> \<bar>y\<bar> then signed_inf (x < 0) else Fin y))"

fun js_neg :: "jsnum \<Rightarrow> jsnum" where
  "js_neg (Fin a) = Fin (- a)"
| "js_neg PosInf = NegInf"
| "js_neg NegInf = PosInf"
| "js_neg NaN = NaN"

fun js_add :: "jsnum \<Rightarrow> jsnum \<Rightarrow> jsnum" where
  "js_add NaN y = NaN"
| "js_add x NaN = NaN"
| "js_add (Fin a) (Fin b) = rnd64 (a + b)"
| "js_add PosInf NegInf = NaN"
| "js_add NegInf PosInf = NaN"
| "js_add PosInf y = PosInf"
| "js_add NegInf y = NegInf"
| "js_add (Fin a) y = y"

definition js_sub :: "jsnum \<Rightarrow> jsnum \<Rightarrow> jsnum" where
  "js_sub x y = js_add x (js_neg y)"

fun js_mul :: "jsnum \<Rightarrow> jsnum \<Rightarrow> jsnum" where
  "js_mul NaN y = NaN"
| "js_mul x NaN = NaN"
| "js_mul (Fin a) (Fin b) = rnd64 (a * b)"
| "js_mul PosInf PosInf = PosInf"
| "js_mul PosInf NegInf = NegInf"
| "js_mul NegInf PosInf = NegInf"
| "js_mul NegInf NegInf = PosInf"
| "js_mul PosInf (Fin b) = (if b = 0 then NaN else signed_inf (b < 0))"
| "js_mul NegInf (Fin b) = (if b = 0 then NaN else signed_inf (0 < b))"
| "js_mul (Fin a) PosInf = (if a = 0 then NaN else signed_inf (a < 0))"
| "js_mul (Fin a) NegInf = (if a = 0 then NaN else signed_inf (0 < a))"

fun js_div :: "jsnum \<Rightarrow> jsnum \<Rightarrow> jsnum" where
  "js_div NaN y = NaN"
| "js_div x NaN = NaN"
| "js_div (Fin a) (Fin b) =
     (if b \<noteq> 0 then rnd64 (a / b) else if a = 0 then NaN else signed_inf (a < 0))"
| "js_div (Fin a) y = Fin 0"
| "js_div PosInf (Fin b) = signed_inf (b < 0)"
| "js_div NegInf (Fin b) = signed_inf (\<not> b < 0)"
| "js_div x y = NaN"

text \<open>
  The comparison \<^verbatim>\<open>x > y\<close>, false when an operand is NaN, and \<^verbatim>\<open>x || 0\<close>, which
  replaces the two falsy numbers, zero and NaN, by 0.
\<close>

fun js_gt :: "jsnum \<Rightarrow> jsnum \<Rightarrow> bool" where
  "js_gt (Fin a) (Fin b) = (a > b)"
| "js_gt (Fin a) NegInf = True"
| "js_gt PosInf (Fin b) = True"
| "js_gt PosInf NegInf = True"
| "js_gt x y = False"

fun js_or_zero :: "jsnum \<Rightarrow> jsnum" where
  "js_or_zero NaN = Fin 0"
| "js_or_zero x = x"

fun Math_max :: "jsnum \<Rightarrow> jsnum \<Rightarrow> jsnum" where
  "Math_max NaN y = NaN"
| "Math_max x NaN = NaN"
| "Math_max (Fin a) (Fin b) = Fin (max a b)"
| "Math_max PosInf y = PosInf"
| "Math_max x PosInf = PosInf"
| "Math_max NegInf y = y"
| "Math_max x NegInf = x"

fun Math_min :: "jsnum \<Rightarrow> jsnum \<Rightarrow> jsnum" where
  "Math_min NaN y = NaN"
| "Math_min x NaN = NaN"
| "Math_min (Fin a) (Fin b) = Fin (min a b)"
| "Math_min NegInf y = NegInf"
| "Math_min x NegInf = NegInf"
| "Math_min PosInf y = y"
| "Math_min x PosInf = x"

fun Math_abs :: "jsnum \<Rightarrow> jsnum" where
  "Math_abs (Fin a) = Fin \<bar>a\<bar>"
| "Math_abs NaN = NaN"
| "Math_abs x = PosInf"

text \<open>
  \<^verbatim>\<open>Math.round\<close> returns the nearest integer, a tie towards plus infinity; the result
  is a double, so nothing is rounded a second time. \<^verbatim>\<open>Math.sqrt\<close> is correctly
  rounded. \<^verbatim>\<open>Math.pow(x, 2)\<close> is taken as the rounded product \<open>x * x\<close> (the language
  lets an implementation approximate \<^verbatim>\<open>Math.pow\<close>).
\<close>

definition round_real :: "real \<Rightarrow> real" where
  "round_real x = real_of_int \<lfloor>x + 1 / 2\<rfloor>"

fun Math_round :: "jsnum \<Rightarrow> jsnum" where
  "Math_round (Fin a) = Fin (round_real a)"
| "Math_round x = x"

fun Math_sqrt :: "jsnum \<Rightarrow> jsnum" where
  "Math_sqrt (Fin a) = (if a < 0 then NaN else rnd64 (sqrt a))"
| "Math_sqrt PosInf = PosInf"
| "Math_sqrt x = NaN"

definition Math_pow2 :: "jsnum \<Rightarrow> jsnum" where
  "Math_pow2 x = js_mul x x"

subsection \<open>Dates\<close>

text \<open>
  A \<^verbatim>\<open>Date\<close> is either the invalid date or a time value, given here by the UTC
  calendar fields that \<^verbatim>\<open>toISOString\<close> prints. \<^verbatim>\<open>toISOString\<close> throws a
  RangeError on the invalid date; it prints a year from 0 to 9999 with four digits and
  any other year with a sign and six digits.
\<close>

record utc =
  utc_year :: int
  utc_month :: nat
  utc_day :: nat
  utc_hours :: nat
  utc_minutes :: nat
  utc_seconds :: nat
  utc_ms :: nat

datatype jsdate = InvalidDate | ValidDate utc

definition digit_char :: "nat \<Rightarrow> char" where
  "digit_char n = ''0123456789'' ! (n mod 10)"

definition pad2 :: "nat \<Rightarrow> string" where
  "pad2 n = [digit_char (n div 10), digit_char n]"

definition pad3 :: "nat \<Rightarrow> string" where
  "pad3 n = [digit_char (n div 100), digit_char (n div 10), digit_char n]"

definition pad4 :: "nat \<Rightarrow> string" where
  "pad4 n = [digit_char (n div 1000), digit_char (n div 100), digit_char (n div 10),
             digit_char n]"

definition pad6 :: "nat \<Rightarrow> string" where
  "pad6 n = [digit_char (n div 100000), digit_char (n div 10000), digit_char (n div 1000),
             digit_char (n div 100), digit_char (n div 10), digit_char n]"

definition iso_year :: "int \<Rightarrow> string" where
  "iso_year y =
     (if 0 \<le> y \<and> y \<le> 9999 then pad4 (nat y)
      else (if y < 0 then ''-'' else ''+'') @ pad6 (nat \<bar>y\<bar>))"

fun toISOString :: "jsdate \<Rightarrow> js_error + string" where
  "toISOString InvalidDate = Inl RangeError"
| "toISOString (ValidDate u) =
     Inr (iso_year (utc_year u) @ ''-'' @ pad2 (utc_month u) @ ''-'' @ pad2 (utc_day u)
          @ ''T'' @ pad2 (utc_hours u) @ '':'' @ pad2 (utc_minutes u) @ '':''
          @ pad2 (utc_seconds u) @ ''.'' @ pad3 (utc_ms u) @ ''Z'')"

text \<open>The fields of a time value in the range of \<^verbatim>\<open>Date\<close>.\<close>

definition wf_utc :: "utc \<Rightarrow> bool" where
  "wf_utc u \<longleftrightarrow>
     - 271821 \<le> utc_year u \<and> utc_year u \<le> 275760 \<and>
     1 \<le> utc_month u \<and> utc_month u \<le> 12 \<and> 1 \<le> utc_day u \<and> utc_day u \<le> 31 \<and>
     utc_hours u < 24 \<and> utc_minutes u < 60 \<and> utc_seconds u < 60 \<and> utc_ms u < 1000"

section \<open>Data model\<close>

text \<open>
  The two Mongoose schemas of \<^verbatim>\<open>server.js\<close>. An amount is a finite number, carried
  as the real number it denotes and read as the double \<open>Fin (amount t)\<close>; the amounts of
  the examples are doubles. The fields of a budget carry the prefix \<open>b_\<close>, since a field
  name can belong to one record only.
\<close>

record transaction =
  type :: string
  amount :: real
  category :: string
  description :: "string option"
  date :: jsdate

record budget =
  b_category :: string
  b_amount :: real
  b_type :: string

record bucket =
  expenses :: jsnum
  income :: jsnum

text \<open>
  An object used as a dictionary is an association list of its own properties in
  insertion order, with one entry per key: \<open>map_of\<close> reads an own property,
  \<open>AList.update\<close> assigns one (in place when the key exists, at the end otherwise).
  A key that is not an own property is looked up in \<^verbatim>\<open>Object.prototype\<close>, whose
  members are listed in \<open>Object_prototype_names\<close>.

  \<^verbatim>\<open>Object.keys\<close> lists the keys that are array indices (canonical decimal numerals
  below \<open>2^32 - 1\<close>) first, in ascending numeric order, and then the other keys in
  insertion order.
\<close>

type_synonym 'v jsobject = "(string \<times> 'v) list"

definition Object_prototype_names :: "string list" where
  "Object_prototype_names =
     [''constructor'', ''hasOwnProperty'', ''isPrototypeOf'', ''propertyIsEnumerable'',
      ''toLocaleString'', ''toString'', ''valueOf'', ''__proto__'', ''__defineGetter__'',
      ''__defineSetter__'', ''__lookupGetter__'', ''__lookupSetter__'']"

definition is_digit :: "char \<Rightarrow> bool" where
  "is_digit c \<longleftrightarrow> CHR ''0'' \<le> c \<and> c \<le> CHR ''9''"

definition index_value :: "string \<Rightarrow> nat" where
  "index_value s = foldl (\<lambda>n c. 10 * n + (of_char c - 48)) 0 s"

definition is_array_index :: "string \<Rightarrow> bool" where
  "is_array_index s \<longleftrightarrow>
     s \<noteq> [] \<and> list_all is_digit s \<and> (s = ''0'' \<or> hd s \<noteq> CHR ''0'') \<and>
     index_value s < 4294967295"

definition own_keys_order :: "string list \<Rightarrow> string list" where
  "own_keys_order ks =
     sort_key index_value (filter is_array_index ks) @ filter (\<lambda>k. \<not> is_array_index k) ks"

definition Object_keys :: "'v jsobject \<Rightarrow> string list" where
  "Object_keys obj = own_keys_order (map fst obj)"

text \<open>
  \<^verbatim>\<open>xs.slice(a, b)\<close> for \<open>0 \<le> a \<le> b\<close>, and \<^verbatim>\<open>xs.slice(-n)\<close>, which starts at
  \<open>max (length xs - n) 0\<close>.
\<close>

definition slice :: "nat \<Rightarrow> nat \<Rightarrow> 'a list \<Rightarrow> 'a list" where
  "slice a b xs = take (b - a) (drop a xs)"

definition slice_last :: "nat \<Rightarrow> 'a list \<Rightarrow> 'a list" where
  "slice_last n xs = drop (length xs - n) xs"

text \<open>
  \<^verbatim>\<open>Math.round(x * 100) / 100\<close>, the rounding to two decimals of the accuracy route:
  the product and the quotient are rounded as every operation is.
\<close>

definition round2 :: "jsnum \<Rightarrow> jsnum" where
  "round2 x = js_div (Math_round (js_mul x (Fin 100))) (Fin 100)"

text \<open>
  \<^verbatim>\<open>x.toFixed(2)\<close>: for a finite \<open>x\<close> with \<open>\<bar>x\<bar> < 10^21\<close> the sign, then the integer
  nearest to \<open>\<bar>x\<bar> * 100\<close> (the larger one on a tie) printed with two decimals. From
  \<open>10^21\<close> on the language prints the exponent notation, which is not modelled.
\<close>

fun nat_to_string :: "nat \<Rightarrow> string" where
  "nat_to_string n =
     (if n < 10 then [digit_char n] else nat_to_string (n div 10) @ [digit_char n])"

fun toFixed2 :: "jsnum \<Rightarrow> string" where
  "toFixed2 (Fin x) =
     (let n = nat \<lfloor>\<bar>x\<bar> * 100 + 1 / 2\<rfloor>
      in (if x < 0 then ''-'' else []) @ nat_to_string (n div 100) @ ''.'' @ pad2 (n mod 100))"
| "toFixed2 PosInf = ''Infinity''"
| "toFixed2 NegInf = ''-Infinity''"
| "toFixed2 NaN = ''NaN''"

section \<open>Aggregator\<close>

text \<open>
  \<^verbatim>\<open>getMonthlyData\<close> (server.js, lines 78 to 89): a \<^verbatim>\<open>reduce\<close> over the
  transactions, starting from the empty object. \<open>monthly_step\<close> is its callback.
  Reading a field of a missing bucket would be a TypeError. A month key begins with a
  digit or a sign, so it never names a member of \<^verbatim>\<open>Object.prototype\<close>, and the
  lookups of the callback see own properties only.
\<close>

definition add_to_bucket :: "transaction \<Rightarrow> bucket \<Rightarrow> bucket" where
  "add_to_bucket t b =
     (if type t = ''expense'' then b\<lparr>expenses := js_add (expenses b) (Fin (amount t))\<rparr>
      else b\<lparr>income := js_add (income b) (Fin (amount t))\<rparr>)"

definition monthly_step :: "bucket jsobject \<Rightarrow> transaction \<Rightarrow> js_error + bucket jsobject" where
  "monthly_step acc t =
     (case toISOString (date t) of
        Inl e \<Rightarrow> Inl e
      | Inr isoString \<Rightarrow>
          (let monthYear = take 7 isoString;
               acc1 = (if map_of acc monthYear = None
                       then AList.update monthYear \<lparr>expenses = Fin 0, income = Fin 0\<rparr> acc
                       else acc)
           in (case map_of acc1 monthYear of
                 None \<Rightarrow> Inl TypeError
               | Some b \<Rightarrow> Inr (AList.update monthYear (add_to_bucket t b) acc1))))"

fun reduce_monthly :: "bucket jsobject \<Rightarrow> transaction list \<Rightarrow> js_error + bucket jsobject" where
  "reduce_monthly acc [] = Inr acc"
| "reduce_monthly acc (t # ts) =
     (case monthly_step acc t of Inl e \<Rightarrow> Inl e | Inr acc' \<Rightarrow> reduce_monthly acc' ts)"

definition getMonthlyData :: "transaction list \<Rightarrow> js_error + bucket jsobject" where
  "getMonthlyData transactions = reduce_monthly [] transactions"

text \<open>
  \<^verbatim>\<open>monthlyData[month].expenses\<close>, and the sum of it over a list of month keys
  (\<^verbatim>\<open>reduce((sum, month) => sum + monthlyData[month].expenses, 0)\<close>).
\<close>

definition expenses_of :: "bucket jsobject \<Rightarrow> string \<Rightarrow> js_error + jsnum" where
  "expenses_of monthlyData k =
     (case map_of monthlyData k of None \<Rightarrow> Inl TypeError | Some b \<Rightarrow> Inr (expenses b))"

fun sum_expenses :: "bucket jsobject \<Rightarrow> jsnum \<Rightarrow> string list \<Rightarrow> js_error + jsnum" where
  "sum_expenses monthlyData s [] = Inr s"
| "sum_expenses monthlyData s (k # ks) =
     (case expenses_of monthlyData k of
        Inl e \<Rightarrow> Inl e
      | Inr x \<Rightarrow> sum_expenses monthlyData (js_add s x) ks)"

fun map_expenses :: "bucket jsobject \<Rightarrow> string list \<Rightarrow> js_error + jsnum list" where
  "map_expenses monthlyData [] = Inr []"
| "map_expenses monthlyData (k # ks) =
     (case expenses_of monthlyData k of
        Inl e \<Rightarrow> Inl e
      | Inr x \<Rightarrow> (case map_expenses monthlyData ks of Inl e \<Rightarrow> Inl e | Inr xs \<Rightarrow> Inr (x # xs)))"

section \<open>Moving-average predictor\<close>

text \<open>\<^verbatim>\<open>calculateConfidence\<close> (server.js, lines 146 to 152).\<close>

definition calculateConfidence :: "jsnum list \<Rightarrow> jsnum" where
  "calculateConfidence data =
     (if length data < 2 then Fin 0
      else
        (let mean = js_div (foldl (\<lambda>a b. js_add a b) (Fin 0) data) (Fin (real (length data)));
             variance =
               js_div (foldl (\<lambda>acc val. js_add acc (Math_pow2 (js_sub val mean))) (Fin 0) data)
                 (Fin (real (length data)));
             coefficientOfVariation = js_div (Math_sqrt variance) mean
         in Math_max (Fin 0)
              (Math_min (Fin 100) (js_mul (js_sub (Fin 1) coefficientOfVariation) (Fin 100)))))"

record prediction_result =
  prediction :: jsnum
  confidence :: jsnum

text \<open>
  \<^verbatim>\<open>mlUtils.predictNextMonthSpending\<close> (server.js, lines 93 to 105); \<open>None\<close> is
  \<^verbatim>\<open>null\<close>. (The function of the same name in utils/dataProcessor.js averages the
  last three expense transactions and is not used by server.js.)
\<close>

definition predictNextMonthSpending ::
  "transaction list \<Rightarrow> js_error + prediction_result option" where
  "predictNextMonthSpending transactions =
     (if length transactions < 3 then Inr None
      else
        (case getMonthlyData transactions of
           Inl e \<Rightarrow> Inl e
         | Inr monthlyData \<Rightarrow>
             (let months = sort (Object_keys monthlyData);
                  recentMonths = slice_last 3 months
              in (case map_expenses monthlyData recentMonths of
                    Inl e \<Rightarrow> Inl e
                  | Inr recentExpenses \<Rightarrow>
                      Inr (Some \<lparr>prediction =
                                   js_div (foldl (\<lambda>a b. js_add a b) (Fin 0) recentExpenses) (Fin 3),
                                 confidence = calculateConfidence recentExpenses\<rparr>)))))"

section \<open>Backtester\<close>

text \<open>
  \<^verbatim>\<open>calculateAccuracy\<close> (server.js, lines 72 to 76). The test \<^verbatim>\<open>actual === 0\<close> is
  false for NaN.
\<close>

definition calculateAccuracy :: "jsnum \<Rightarrow> jsnum \<Rightarrow> jsnum" where
  "calculateAccuracy predicted actual =
     (if actual = Fin 0 then Fin 0
      else (let accuracy =
                  js_mul (js_sub (Fin 1) (js_div (Math_abs (js_sub predicted actual)) actual))
                    (Fin 100)
            in Math_min (Fin 100) (Math_max (Fin 0) accuracy)))"

record accuracy_record =
  month :: string
  predicted :: jsnum
  actual :: jsnum
  accuracy :: jsnum

text \<open>
  The loop of the accuracy route (server.js, lines 242 to 259). Its state is the list
  \<open>predictions\<close>, \<open>totalAccuracy\<close> and \<open>predictionCount\<close>; the loop variable \<open>i\<close>
  runs from 3 while \<open>i < months.length\<close>.
\<close>

type_synonym backtest_state = "accuracy_record list \<times> jsnum \<times> nat"

function backtest_loop ::
  "bucket jsobject \<Rightarrow> string list \<Rightarrow> nat \<Rightarrow> backtest_state \<Rightarrow> js_error + backtest_state" where
  "backtest_loop monthlyData months i st =
     (if i < length months then
        (case st of (predictions, totalAccuracy, predictionCount) \<Rightarrow>
          (let prevThreeMonths = slice (i - 3) i months
           in (case sum_expenses monthlyData (Fin 0) prevThreeMonths of
                 Inl e \<Rightarrow> Inl e
               | Inr s \<Rightarrow>
                   (let p = js_div s (Fin 3)
                    in (case expenses_of monthlyData (months ! i) of
                          Inl e \<Rightarrow> Inl e
                        | Inr a \<Rightarrow>
                            (let acc = calculateAccuracy p a
                             in backtest_loop monthlyData months (i + 1)
                                  (predictions @
                                     [\<lparr>month = months ! i, predicted = round2 p,
                                       actual = round2 a, accuracy = round2 acc\<rparr>],
                                   js_add totalAccuracy acc, predictionCount + 1)))))))
      else Inr st)"
  by pat_completeness auto
termination
  by (relation "measure (\<lambda>(monthlyData, months, i, st). length months - i)") auto

definition backtest :: "bucket jsobject \<Rightarrow> js_error + backtest_state" where
  "backtest monthlyData =
     backtest_loop monthlyData (sort (Object_keys monthlyData)) 3 ([], Fin 0, 0)"

record accuracy_response =
  predictions :: "accuracy_record list"
  averageAccuracy :: jsnum
  totalPredictions :: nat

text \<open>
  The accuracy route on the transactions its query returned (server.js, lines 233 to
  265).
\<close>

definition accuracy_route :: "transaction list \<Rightarrow> js_error + accuracy_response" where
  "accuracy_route transactions =
     (case getMonthlyData transactions of
        Inl e \<Rightarrow> Inl e
      | Inr monthlyData \<Rightarrow>
          (case backtest monthlyData of
             Inl e \<Rightarrow> Inl e
           | Inr (preds, totalAccuracy, predictionCount) \<Rightarrow>
               Inr \<lparr>predictions = slice_last 3 preds,
                    averageAccuracy =
                      (if predictionCount > 0
                       then Math_round (js_div totalAccuracy (Fin (real predictionCount)))
                       else Fin 0),
                    totalPredictions = predictionCount\<rparr>))"

section \<open>Per-budget recommender\<close>

record recommendation =
  r_category :: string
  message :: string
  priority :: string

text \<open>
  \<^verbatim>\<open>mlUtils.generateRecommendations\<close> (server.js, lines 107 to 143).
  \<open>category_transactions\<close> is the \<^verbatim>\<open>filter\<close> of lines 115 to 119: the conjunction is
  evaluated left to right, so the date is printed only for an expense of the budget's
  category. \<open>budget_loop\<close> is the loop over the budgets, with the list of
  recommendations pushed so far.
\<close>

fun category_transactions ::
  "string \<Rightarrow> string \<Rightarrow> transaction list \<Rightarrow> js_error + transaction list" where
  "category_transactions c currentMonth [] = Inr []"
| "category_transactions c currentMonth (t # ts) =
     (if category t = c \<and> type t = ''expense'' then
        (case toISOString (date t) of
           Inl e \<Rightarrow> Inl e
         | Inr isoString \<Rightarrow>
             (case category_transactions c currentMonth ts of
                Inl e \<Rightarrow> Inl e
              | Inr r \<Rightarrow> Inr (if take 7 isoString = currentMonth then t # r else r)))
      else category_transactions c currentMonth ts)"

fun budget_loop ::
  "string \<Rightarrow> transaction list \<Rightarrow> budget list \<Rightarrow> recommendation list \<Rightarrow>
   js_error + recommendation list" where
  "budget_loop currentMonth transactions [] recommendations = Inr recommendations"
| "budget_loop currentMonth transactions (budget # budgets) recommendations =
     (case category_transactions (b_category budget) currentMonth transactions of
        Inl e \<Rightarrow> Inl e
      | Inr categoryTransactions \<Rightarrow>
          (let categorySpending =
                 foldl (\<lambda>sum t. js_add sum (Fin (amount t))) (Fin 0) categoryTransactions
           in budget_loop currentMonth transactions budgets
                (if js_gt categorySpending (Fin (b_amount budget))
                 then recommendations @
                      [\<lparr>r_category = b_category budget,
                        message = ''Reduce spending in '' @ b_category budget @ '' by $''
                                  @ toFixed2 (js_sub categorySpending (Fin (b_amount budget))),
                        priority = ''high''\<rparr>]
                 else recommendations)))"

definition general_recommendation :: recommendation where
  "general_recommendation =
     \<lparr>r_category = ''general'',
      message = ''Overall spending is higher than last month. Consider reducing expenses.'',
      priority = ''medium''\<rparr>"

text \<open>
  Line 133 reads the identifier \<^verbatim>\<open>months\<close>. The first argument of
  \<open>generateRecommendations_in\<close> is the binding of that identifier in the scope of the
  function: \<open>None\<close> when there is none, in which case reading it throws a
  ReferenceError. \<open>now\<close> is the time value of \<^verbatim>\<open>new Date()\<close>. An index out of range
  reads \<^verbatim>\<open>undefined\<close>, which counts as false in the condition of line 134, and so
  does the empty string. The literal \<^verbatim>\<open>1.1\<close> is the double nearest to 11/10.
\<close>

definition generateRecommendations_in ::
  "string list option \<Rightarrow> utc \<Rightarrow> transaction list \<Rightarrow> budget list \<Rightarrow>
   js_error + recommendation list" where
  "generateRecommendations_in months_binding now transactions budgets =
     (case getMonthlyData transactions of
        Inl e \<Rightarrow> Inl e
      | Inr monthlyData \<Rightarrow>
          (case toISOString (ValidDate now) of
             Inl e \<Rightarrow> Inl e
           | Inr isoString \<Rightarrow>
               (let currentMonth = take 7 isoString;
                    currentSpending =
                      (case map_of monthlyData currentMonth of
                         None \<Rightarrow> Fin 0
                       | Some b \<Rightarrow> js_or_zero (expenses b))
                in (case budget_loop currentMonth transactions budgets [] of
                      Inl e \<Rightarrow> Inl e
                    | Inr recommendations \<Rightarrow>
                        (case months_binding of
                           None \<Rightarrow> Inl ReferenceError
                         | Some months \<Rightarrow>
                             (if 2 \<le> length months \<and> months ! (length months - 2) \<noteq> []
                              then
                                (case map_of monthlyData (months ! (length months - 2)) of
                                   None \<Rightarrow> Inl TypeError
                                 | Some b \<Rightarrow>
                                     Inr (if js_gt currentSpending
                                               (js_mul (expenses b) (rnd64 (11 / 10)))
                                          then recommendations @ [general_recommendation]
                                          else recommendations))
                              else Inr recommendations))))))"

text \<open>
  server.js declares \<^verbatim>\<open>months\<close> twice, at lines 97 and 235, each time as a
  \<^verbatim>\<open>const\<close> local to another function. Neither is in scope at line 133, and the
  module declares no other: the function as written runs with no binding.
\<close>

definition generateRecommendations ::
  "utc \<Rightarrow> transaction list \<Rightarrow> budget list \<Rightarrow> js_error + recommendation list" where
  "generateRecommendations now transactions budgets =
     generateRecommendations_in None now transactions budgets"

section \<open>Linear-regression predictor\<close>

text \<open>\<^verbatim>\<open>calculateSpendingPrediction\<close> (utils/mlModel.js).\<close>

definition calculateSpendingPrediction :: "transaction list \<Rightarrow> jsnum" where
  "calculateSpendingPrediction historicalData =
     (let xValues = map (\<lambda>i. Fin (real i)) [0..<length historicalData];
          yValues = map (\<lambda>d. Fin (amount d)) historicalData;
          n = Fin (real (length xValues));
          sumX = foldl (\<lambda>a b. js_add a b) (Fin 0) xValues;
          sumY = foldl (\<lambda>a b. js_add a b) (Fin 0) yValues;
          sumXY = foldl (\<lambda>a (b, y). js_add a (js_mul b y)) (Fin 0) (zip xValues yValues);
          sumXX = foldl (\<lambda>a b. js_add a (js_mul b b)) (Fin 0) xValues;
          slope = js_div (js_sub (js_mul n sumXY) (js_mul sumX sumY))
                    (js_sub (js_mul n sumXX) (js_mul sumX sumX));
          intercept = js_div (js_sub sumY (js_mul slope sumX)) n;
          nextPrediction = js_add (js_mul slope (js_add n (Fin 1))) intercept
      in Math_max (Fin 0) (js_div (Math_round (js_mul nextPrediction (Fin 100))) (Fin 100)))"

section \<open>Surplus-mode recommender\<close>

text \<open>
  \<^verbatim>\<open>findTopExpenseCategory\<close> (utils/recommendations.js): the totals per category,
  then a \<^verbatim>\<open>reduce\<close> with no initial value over the keys, which throws a TypeError on
  the empty array. A comparison with a missing total is false.

  \<^verbatim>\<open>acc[curr.category] || 0\<close> reads an own total, or else a member of
  \<^verbatim>\<open>Object.prototype\<close>, or else \<^verbatim>\<open>undefined\<close>. When a category without a total
  names a member of \<^verbatim>\<open>Object.prototype\<close>, the sum is a string concatenation and the
  totals stop being numbers: the model does not follow such a run, and the result is
  \<open>None\<close>.
\<close>

definition total_step :: "jsnum jsobject \<Rightarrow> transaction \<Rightarrow> jsnum jsobject option" where
  "total_step acc t =
     (case map_of acc (category t) of
        Some v \<Rightarrow>
          Some (AList.update (category t) (js_add (js_or_zero v) (Fin (amount t))) acc)
      | None \<Rightarrow>
          if category t \<in> set Object_prototype_names then None
          else Some (AList.update (category t) (js_add (Fin 0) (Fin (amount t))) acc))"

fun reduce_totals :: "jsnum jsobject \<Rightarrow> transaction list \<Rightarrow> jsnum jsobject option" where
  "reduce_totals acc [] = Some acc"
| "reduce_totals acc (t # ts) =
     (case total_step acc t of None \<Rightarrow> None | Some acc' \<Rightarrow> reduce_totals acc' ts)"

definition categoryTotals :: "transaction list \<Rightarrow> jsnum jsobject option" where
  "categoryTotals transactions =
     reduce_totals [] (filter (\<lambda>t. type t = ''expense'') transactions)"

definition greater_total :: "jsnum jsobject \<Rightarrow> string \<Rightarrow> string \<Rightarrow> bool" where
  "greater_total totals a b =
     (case map_of totals a of
        None \<Rightarrow> False
      | Some x \<Rightarrow> (case map_of totals b of None \<Rightarrow> False | Some y \<Rightarrow> js_gt x y))"

definition findTopExpenseCategory :: "transaction list \<Rightarrow> (js_error + string) option" where
  "findTopExpenseCategory transactions =
     (case categoryTotals transactions of
        None \<Rightarrow> None
      | Some totals \<Rightarrow>
          Some (case Object_keys totals of
                  [] \<Rightarrow> Inl TypeError
                | k # ks \<Rightarrow>
                    Inr (foldl (\<lambda>a b. if greater_total totals a b then a else b) k ks)))"

record surplus_recommendation =
  s_type :: string
  s_message :: string

text \<open>
  \<^verbatim>\<open>generateRecommendations\<close> of utils/recommendations.js. The template literals
  print a number with \<^verbatim>\<open>Number.prototype.toString\<close>, which is the parameter
  \<open>numberToString\<close> here.
\<close>

definition surplus_recommendations ::
  "(jsnum \<Rightarrow> string) \<Rightarrow> transaction list \<Rightarrow> jsnum \<Rightarrow>
   (js_error + surplus_recommendation) option" where
  "surplus_recommendations numberToString transactions monthlyBudget =
     (let totalSpent =
            foldl (\<lambda>acc curr. js_add acc (Fin (amount curr))) (Fin 0)
              (filter (\<lambda>t. type t = ''expense'') transactions);
          surplus = js_sub monthlyBudget totalSpent
      in if js_gt surplus (Fin 0) then
           Some (Inr \<lparr>s_type = ''positive'',
                      s_message = ''You have a surplus of $'' @ numberToString surplus
                        @ ''. Recommend: 70% to savings, 30% to emergency fund.''\<rparr>)
         else
           (case findTopExpenseCategory transactions of
              None \<Rightarrow> None
            | Some (Inl e) \<Rightarrow> Some (Inl e)
            | Some (Inr topExpenseCategory) \<Rightarrow>
                Some (Inr \<lparr>s_type = ''warning'',
                           s_message = ''Over budget by $'' @ numberToString (Math_abs surplus)
                             @ ''. Consider reducing spending in '' @ topExpenseCategory
                             @ ''.''\<rparr>)))"

section \<open>Vocabulary of the properties\<close>

subsection \<open>Sums in double arithmetic\<close>

text \<open>
  The sum of a list of amounts as a \<^verbatim>\<open>reduce\<close> computes it: from a start value, in
  the order of the list, each addition rounded. \<open>double_sum\<close> starts from 0.
\<close>

definition sum_from :: "jsnum \<Rightarrow> real list \<Rightarrow> jsnum" where
  "sum_from s xs = foldl (\<lambda>s a. js_add s (Fin a)) s xs"

definition double_sum :: "real list \<Rightarrow> jsnum" where
  "double_sum xs = sum_from (Fin 0) xs"

subsection \<open>Months and validated transactions\<close>

text \<open>
  The calendar month (UTC year and month) of a date, and the key \<open>YYYY-MM\<close> of a
  calendar month whose year has four digits.
\<close>

fun calendar_month :: "jsdate \<Rightarrow> (int \<times> nat) option" where
  "calendar_month InvalidDate = None"
| "calendar_month (ValidDate u) = Some (utc_year u, utc_month u)"

definition yyyy_mm :: "int \<times> nat \<Rightarrow> string" where
  "yyyy_mm c = pad4 (nat (fst c)) @ ''-'' @ pad2 (snd c)"

text \<open>
  A validated transaction: its type is income or expense and its date is a valid date.
  \<open>four_digit_year\<close> says that the year of the date is between 0 and 9999.
\<close>

definition valid_transaction :: "transaction \<Rightarrow> bool" where
  "valid_transaction t \<longleftrightarrow>
     (type t = ''income'' \<or> type t = ''expense'') \<and>
     (case date t of InvalidDate \<Rightarrow> False | ValidDate u \<Rightarrow> wf_utc u)"

definition four_digit_year :: "transaction \<Rightarrow> bool" where
  "four_digit_year t \<longleftrightarrow>
     (case date t of
        InvalidDate \<Rightarrow> False
      | ValidDate u \<Rightarrow> 0 \<le> utc_year u \<and> utc_year u \<le> 9999)"

definition in_month :: "int \<times> nat \<Rightarrow> transaction \<Rightarrow> bool" where
  "in_month c t \<longleftrightarrow> calendar_month (date t) = Some c"

definition months_present :: "transaction list \<Rightarrow> (int \<times> nat) set" where
  "months_present ts = set (List.map_filter (\<lambda>t. calendar_month (date t)) ts)"

text \<open>Auxiliary notions of the proofs about the aggregator.\<close>

definition tkey :: "transaction \<Rightarrow> string" where
  "tkey t = (case calendar_month (date t) of None \<Rightarrow> [] | Some c \<Rightarrow> yyyy_mm c)"

definition bucket_at :: "bucket jsobject \<Rightarrow> string \<Rightarrow> bucket" where
  "bucket_at acc k =
     (case map_of acc k of None \<Rightarrow> \<lparr>expenses = Fin 0, income = Fin 0\<rparr> | Some b \<Rightarrow> b)"

definition month_expenses :: "string \<Rightarrow> transaction list \<Rightarrow> real list" where
  "month_expenses k ts = map amount [t\<leftarrow>ts. tkey t = k \<and> type t = ''expense'']"

definition month_income :: "string \<Rightarrow> transaction list \<Rightarrow> real list" where
  "month_income k ts = map amount [t\<leftarrow>ts. tkey t = k \<and> type t \<noteq> ''expense'']"

text \<open>Sample data: a date at midnight UTC and a transaction with no description.\<close>

definition utc_day_start :: "int \<Rightarrow> nat \<Rightarrow> nat \<Rightarrow> utc" where
  "utc_day_start y m d =
     \<lparr>utc_year = y, utc_month = m, utc_day = d, utc_hours = 0, utc_minutes = 0,
      utc_seconds = 0, utc_ms = 0\<rparr>"

definition tx :: "string \<Rightarrow> real \<Rightarrow> string \<Rightarrow> int \<Rightarrow> nat \<Rightarrow> nat \<Rightarrow> transaction" where
  "tx ty a c y m d =
     \<lparr>type = ty, amount = a, category = c, description = None,
      date = ValidDate (utc_day_start y m d)\<rparr>"

subsection \<open>Accuracy records\<close>

text \<open>
  The accuracy record of index \<open>i\<close> as the specification words it: the mean of the
  expenses of the three months before \<open>i\<close>, the expenses of month \<open>i\<close>, and the
  accuracy clamped to the range from 0 to 100, which is 0 when the actual value is 0;
  each of the three rounded to two decimals. The arithmetic is that of doubles, and the
  mean adds the three expenses to 0 in the order of the months.
\<close>

definition expenses_at :: "bucket jsobject \<Rightarrow> string \<Rightarrow> jsnum" where
  "expenses_at monthlyData k =
     (case map_of monthlyData k of None \<Rightarrow> Fin 0 | Some b \<Rightarrow> expenses b)"

definition clamp :: "jsnum \<Rightarrow> jsnum \<Rightarrow> jsnum \<Rightarrow> jsnum" where
  "clamp lo hi x = Math_max lo (Math_min hi x)"

definition spec_predicted :: "bucket jsobject \<Rightarrow> string list \<Rightarrow> nat \<Rightarrow> jsnum" where
  "spec_predicted monthlyData ms i =
     js_div (js_add (js_add (js_add (Fin 0) (expenses_at monthlyData (ms ! (i - 3))))
                       (expenses_at monthlyData (ms ! (i - 2))))
               (expenses_at monthlyData (ms ! (i - 1))))
       (Fin 3)"

definition spec_accuracy :: "jsnum \<Rightarrow> jsnum \<Rightarrow> jsnum" where
  "spec_accuracy p a =
     (if a = Fin 0 then Fin 0
      else clamp (Fin 0) (Fin 100)
             (js_mul (js_sub (Fin 1) (js_div (Math_abs (js_sub p a)) a)) (Fin 100)))"

definition spec_accuracy_record :: "bucket jsobject \<Rightarrow> string list \<Rightarrow> nat \<Rightarrow> accuracy_record" where
  "spec_accuracy_record monthlyData ms i =
     \<lparr>month = ms ! i,
      predicted = round2 (spec_predicted monthlyData ms i),
      actual = round2 (expenses_at monthlyData (ms ! i)),
      accuracy = round2 (spec_accuracy (spec_predicted monthlyData ms i)
                           (expenses_at monthlyData (ms ! i)))\<rparr>"

subsection \<open>Totals per category\<close>

text \<open>
  The vocabulary of the surplus-mode recommender: the total of the expenses, the total
  of the expenses of a category (both added in the order of the transactions, in double
  arithmetic), and the categories that have an expense in the order in which
  \<^verbatim>\<open>Object.keys\<close> lists them (\<open>first_occurrences\<close> keeps the first occurrence of each
  element). \<open>last_maximal f ks c\<close> says that \<open>c\<close> is the last element of \<open>ks\<close> at
  which \<open>f\<close> is maximal: no element has a greater value, and every later element has a
  smaller one. \<open>plain_categories\<close> says that no category of an expense names a member
  of \<^verbatim>\<open>Object.prototype\<close>.
\<close>

fun first_occurrences :: "'a list \<Rightarrow> 'a list" where
  "first_occurrences [] = []"
| "first_occurrences (x # xs) = x # filter (\<lambda>y. y \<noteq> x) (first_occurrences xs)"

definition expense_total :: "transaction list \<Rightarrow> jsnum" where
  "expense_total ts = double_sum (map amount [t\<leftarrow>ts. type t = ''expense''])"

definition category_total :: "transaction list \<Rightarrow> string \<Rightarrow> jsnum" where
  "category_total ts c = double_sum (map amount [t\<leftarrow>ts. type t = ''expense'' \<and> category t = c])"

definition expense_categories :: "transaction list \<Rightarrow> string list" where
  "expense_categories ts =
     own_keys_order (first_occurrences (map category [t\<leftarrow>ts. type t = ''expense'']))"

definition last_maximal :: "('a \<Rightarrow> jsnum) \<Rightarrow> 'a list \<Rightarrow> 'a \<Rightarrow> bool" where
  "last_maximal f ks c \<longleftrightarrow>
     c \<in> set ks \<and> list_all (\<lambda>k. \<not> js_gt (f k) (f c)) ks \<and>
     list_all (\<lambda>k. js_gt (f c) (f k)) (tl (dropWhile (\<lambda>k. k \<noteq> c) ks))"

definition plain_categories :: "transaction list \<Rightarrow> bool" where
  "plain_categories ts \<longleftrightarrow>
     list_all (\<lambda>t. category t \<notin> set Object_prototype_names) [t\<leftarrow>ts. type t = ''expense'']"

definition total_at :: "jsnum jsobject \<Rightarrow> string \<Rightarrow> jsnum" where
  "total_at totals k = (case map_of totals k of None \<Rightarrow> Fin 0 | Some v \<Rightarrow> v)"

text \<open>
  The callback of the totals on a category that names no member of
  \<^verbatim>\<open>Object.prototype\<close>: the total read is an own property, or else 0.
\<close>

definition plain_step :: "jsnum jsobject \<Rightarrow> transaction \<Rightarrow> jsnum jsobject" where
  "plain_step acc t =
     AList.update (category t)
       (js_add (js_or_zero (total_at acc (category t))) (Fin (amount t))) acc"

text \<open>
  \<^verbatim>\<open>Number.prototype.toString\<close> on an integer of magnitude below \<open>10^21\<close>: the sign and the
  decimal digits. It instantiates \<open>numberToString\<close> in the examples, whose amounts are
  integers.
\<close>

fun integer_to_string :: "jsnum \<Rightarrow> string" where
  "integer_to_string (Fin x) = (if x < 0 then ''-'' else []) @ nat_to_string (nat \<lfloor>\<bar>x\<bar>\<rfloor>)"
| "integer_to_string PosInf = ''Infinity''"
| "integer_to_string NegInf = ''-Infinity''"
| "integer_to_string NaN = ''NaN''"

subsection \<open>Budget compliance\<close>

text \<open>
  The current-month spending of a category, and the recommendation of the per-budget
  loop for a budget that it exceeds.
\<close>

definition month_key :: "transaction \<Rightarrow> string" where
  "month_key t = (case toISOString (date t) of Inl e \<Rightarrow> [] | Inr s \<Rightarrow> take 7 s)"

definition category_spending :: "string \<Rightarrow> transaction list \<Rightarrow> string \<Rightarrow> jsnum" where
  "category_spending currentMonth ts c =
     double_sum (map amount
       [t\<leftarrow>ts. category t = c \<and> type t = ''expense'' \<and> month_key t = currentMonth])"

definition overspend_recommendation :: "string \<Rightarrow> jsnum \<Rightarrow> recommendation" where
  "overspend_recommendation c overspend =
     \<lparr>r_category = c,
      message = ''Reduce spending in '' @ c @ '' by $'' @ toFixed2 overspend,
      priority = ''high''\<rparr>"

definition budget_recommendations ::
  "string \<Rightarrow> transaction list \<Rightarrow> budget list \<Rightarrow> recommendation list" where
  "budget_recommendations currentMonth ts budgets =
     concat (map (\<lambda>b. if js_gt (category_spending currentMonth ts (b_category b)) (Fin (b_amount b))
                       then [overspend_recommendation (b_category b)
                               (js_sub (category_spending currentMonth ts (b_category b))
                                  (Fin (b_amount b)))]
                       else []) budgets)"

section \<open>Properties of the arithmetic\<close>

text \<open>
  Rounding leaves an integer below \<open>2^53\<close> as it is, and \<open>rnd64_scaled\<close> evaluates the
  rounding of a number between \<open>2^-1022\<close> and \<open>2^53\<close> from the power of two that scales
  it to 53 bits. A sum never turns NaN by adding a finite amount.
\<close>

lemma round_half_even_int: "round_half_even (of_int k) = k"
  by (simp add: round_half_even_def)

lemma quantum_exponent_eq:
  assumes "2 powr e \<le> \<bar>x\<bar>" "\<bar>x\<bar> < 2 powr (e + 1)" "- 1022 \<le> e"
  shows "quantum_exponent x = e - 52"
proof -
  from assms(1) have "0 < \<bar>x\<bar>" by (smt (verit) powr_gt_zero)
  then have "\<lfloor>log 2 \<bar>x\<bar>\<rfloor> = e"
    using assms(1,2) by (simp add: floor_log_eq_powr_iff)
  with assms(3) show ?thesis by (simp add: quantum_exponent_def)
qed

lemma rnd64_scaled:
  fixes k :: nat
  assumes "2 ^ 52 \<le> \<bar>x\<bar> * 2 ^ k" "\<bar>x\<bar> * 2 ^ k < 2 ^ 53" "k \<le> 1074"
  shows "rnd64 x = Fin (of_int (round_half_even (x * 2 ^ k)) / 2 ^ k)"
proof -
  have p: "2 powr (- real k) = 1 / 2 ^ k"
    by (simp add: powr_minus powr_realpow divide_inverse)
  have e1: "2 powr real_of_int (52 - int k) = 2 ^ 52 / 2 ^ k"
    by (simp add: powr_diff powr_realpow)
  have e2: "2 powr real_of_int (52 - int k + 1) = 2 ^ 53 / 2 ^ k"
  proof -
    have "real_of_int (52 - int k + 1) = 53 - real k" by simp
    then show ?thesis by (simp add: powr_diff powr_realpow)
  qed
  from assms(1) have lo: "2 powr real_of_int (52 - int k) \<le> \<bar>x\<bar>"
    unfolding e1 by (simp add: field_simps)
  from assms(2) have hi: "\<bar>x\<bar> < 2 powr real_of_int (52 - int k + 1)"
    unfolding e2 by (simp add: field_simps)
  from assms(3) have "- 1022 \<le> 52 - int k" by simp
  from quantum_exponent_eq [OF lo hi this] have q: "quantum_exponent x = - int k" by simp
  have x0: "x \<noteq> 0" using assms(1) by auto
  have sc: "x / 2 powr real_of_int (- int k) = x * 2 ^ k"
    using p by simp
  let ?m = "round_half_even (x * 2 ^ k)"
  have m: "\<bar>real_of_int ?m\<bar> \<le> 2 ^ 53"
  proof -
    have fl: "\<bar>real_of_int \<lfloor>x * 2 ^ k\<rfloor>\<bar> \<le> 2 ^ 53 \<and> \<bar>real_of_int \<lfloor>x * 2 ^ k\<rfloor> + 1\<bar> \<le> 2 ^ 53"
    proof -
      have "\<bar>x * 2 ^ k\<bar> = \<bar>x\<bar> * 2 ^ k" by (simp add: abs_mult)
      with assms(2) have "\<bar>x * 2 ^ k\<bar> < 2 ^ 53" by simp
      then have b: "- (2 ^ 53) < x * 2 ^ k" "x * 2 ^ k < 2 ^ 53"
        by (simp_all only: abs_less_iff) linarith+
      have "\<lfloor>x * 2 ^ k\<rfloor> < 2 ^ 53" using b(2) by (simp add: floor_less_iff)
      moreover have "- (2 ^ 53) \<le> \<lfloor>x * 2 ^ k\<rfloor>" using b(1) by (simp add: le_floor_iff)
      ultimately have "- (2 ^ 53) \<le> \<lfloor>x * 2 ^ k\<rfloor> \<and> \<lfloor>x * 2 ^ k\<rfloor> + 1 \<le> 2 ^ 53" by simp
      then have "- (2 ^ 53) \<le> real_of_int \<lfloor>x * 2 ^ k\<rfloor> \<and> real_of_int \<lfloor>x * 2 ^ k\<rfloor> + 1 \<le> 2 ^ 53"
        by (metis (mono_tags, opaque_lifting) of_int_1 of_int_add of_int_le_iff of_int_minus of_int_numeral of_int_power)
      then show ?thesis by (simp add: abs_le_iff)
    qed
    then show ?thesis by (auto simp: round_half_even_def Let_def)
  qed
  have "\<bar>real_of_int ?m * 2 powr real_of_int (- int k)\<bar> \<le> 2 ^ 53"
  proof -
    have "\<bar>real_of_int ?m * 2 powr real_of_int (- int k)\<bar> = \<bar>real_of_int ?m\<bar> / 2 ^ k"
      using p by (simp add: abs_mult)
    also have "\<dots> \<le> \<bar>real_of_int ?m\<bar>"
    proof -
      have "(1::real) \<le> 2 ^ k" by simp
      then show ?thesis
        by (metis abs_ge_zero div_by_1 frac_le order_refl zero_less_one)
    qed
    finally show ?thesis using m by simp
  qed
  moreover have "(2::real) ^ 53 < 2 ^ 1024" by simp
  ultimately have no: "\<not> 2 ^ 1024 \<le> \<bar>real_of_int ?m * 2 powr real_of_int (- int k)\<bar>" by linarith
  show ?thesis
    unfolding rnd64_def Let_def q sc using x0 no p by simp
qed

lemma rnd64_int:
  assumes "x \<in> \<int>" "\<bar>x\<bar> < 2 ^ 53"
  shows "rnd64 x = Fin x"
proof (cases "x = 0")
  case True
  then show ?thesis by (simp add: rnd64_def)
next
  case False
  from assms(1) obtain n where n: "x = of_int n" by (auto elim: Ints_cases)
  with False have "n \<noteq> 0" by auto
  then have "1 \<le> \<bar>n\<bar>" by linarith
  then have n1: "1 \<le> \<bar>x\<bar>" unfolding n by (metis of_int_1_le_iff of_int_abs)
  define e where "e = \<lfloor>log 2 \<bar>x\<bar>\<rfloor>"
  have pos: "0 < \<bar>x\<bar>" using False by simp
  have b: "2 powr e \<le> \<bar>x\<bar>" "\<bar>x\<bar> < 2 powr (e + 1)"
    using floor_log_eq_powr_iff [of "\<bar>x\<bar>" 2 e] pos by (simp_all add: e_def)
  have e0: "0 \<le> e" unfolding e_def using n1 by (simp add: zero_le_log_cancel_iff)
  have e52: "e \<le> 52"
  proof (rule ccontr)
    assume "\<not> e \<le> 52"
    then have "53 \<le> e" by simp
    then have "(2::real) powr real_of_int 53 \<le> 2 powr real_of_int e"
      by (intro powr_mono) simp_all
    moreover have "(2::real) powr real_of_int 53 = 2 ^ 53"
      using powr_realpow [of 2 53] by simp
    ultimately show False using b(1) assms(2) by linarith
  qed
  from e0 have "- 1022 \<le> e" by simp
  from quantum_exponent_eq [OF b this] have q: "quantum_exponent x = e - 52" .
  obtain j :: nat where j: "e - 52 = - int j" using e52
    by (metis diff_le_0_iff_le minus_minus nonneg_int_cases neg_0_le_iff_le)
  have p: "2 powr real_of_int (- int j) = 1 / 2 ^ j"
    by (simp add: powr_minus powr_realpow divide_inverse)
  have "x / 2 powr real_of_int (- int j) = of_int (n * 2 ^ j)"
    using p by (simp add: n)
  then have r: "round_half_even (x / 2 powr real_of_int (- int j)) = n * 2 ^ j"
    by (simp only: round_half_even_int)
  have y: "real_of_int (n * 2 ^ j) * 2 powr real_of_int (- int j) = x"
    using p by (simp add: n)
  have "(2::real) ^ 53 < 2 ^ 1024" by simp
  with assms(2) have "\<not> 2 ^ 1024 \<le> \<bar>x\<bar>" by linarith
  then show ?thesis
    unfolding rnd64_def Let_def q j r y using False by simp
qed

lemma rnd64_zero: "rnd64 0 = Fin 0"
  by (simp add: rnd64_def)

lemma rnd64_not_NaN: "rnd64 x \<noteq> NaN"
  by (simp add: rnd64_def Let_def signed_inf_def)

lemma js_add_Fin_not_NaN: "x \<noteq> NaN \<Longrightarrow> js_add x (Fin a) \<noteq> NaN"
  by (cases x) (simp_all add: rnd64_not_NaN)

lemma sum_from_not_NaN: "s \<noteq> NaN \<Longrightarrow> sum_from s xs \<noteq> NaN"
  unfolding sum_from_def
  by (induction xs arbitrary: s) (simp_all add: js_add_Fin_not_NaN)

lemma sum_from_Cons: "sum_from s (a # xs) = sum_from (js_add s (Fin a)) xs"
  by (simp add: sum_from_def)

lemma sum_from_Nil: "sum_from s [] = s"
  by (simp add: sum_from_def)

lemma js_gt_irrefl: "\<not> js_gt x x"
  by (cases x) simp_all

lemma js_gt_asym: "js_gt x y \<Longrightarrow> \<not> js_gt y x"
  by (cases x; cases y) simp_all

lemma js_gt_negtrans: "r \<noteq> NaN \<Longrightarrow> \<not> js_gt x r \<Longrightarrow> \<not> js_gt r b \<Longrightarrow> \<not> js_gt x b"
  by (cases x; cases r; cases b) simp_all

lemma clamp_commute:
  "Math_min (Fin 100) (Math_max (Fin 0) x) = clamp (Fin 0) (Fin 100) x"
  by (cases x) (simp_all add: clamp_def min_def max_def)

section \<open>Properties of the aggregator\<close>

text \<open>The definitions that evaluate the aggregator on sample data.\<close>

lemmas eval_defs = tx_def utc_day_start_def valid_transaction_def four_digit_year_def wf_utc_def
  getMonthlyData_def monthly_step_def add_to_bucket_def iso_year_def pad2_def pad3_def pad4_def
  pad6_def digit_char_def Let_def

declare backtest_loop.simps [simp del]

declare nat_to_string.simps [simp del]

text \<open>
  The key \<open>YYYY-MM\<close> determines the calendar month when the year has four digits: a
  number below the padding width is determined by its printed digits.
\<close>

lemma digit_char_inj: "digit_char a = digit_char b \<Longrightarrow> a mod 10 = b mod 10"
proof -
  assume h: "digit_char a = digit_char b"
  have d: "distinct ''0123456789''" by simp
  have "a mod 10 < length ''0123456789''" "b mod 10 < length ''0123456789''" by simp_all
  with d h show ?thesis
    unfolding digit_char_def by (simp only: nth_eq_iff_index_eq)
qed

lemma div_mod_10_eq: "(x::nat) div 10 = y div 10 \<Longrightarrow> x mod 10 = y mod 10 \<Longrightarrow> x = y"
  by (metis div_mult_mod_eq)

lemma pad4_inj: "a < 10000 \<Longrightarrow> b < 10000 \<Longrightarrow> pad4 a = pad4 b \<Longrightarrow> a = b"
proof -
  assume a: "a < 10000" and b: "b < 10000" and h: "pad4 a = pad4 b"
  from h have m: "a div 1000 mod 10 = b div 1000 mod 10" "a div 100 mod 10 = b div 100 mod 10"
    "a div 10 mod 10 = b div 10 mod 10" "a mod 10 = b mod 10"
    by (auto simp: pad4_def dest: digit_char_inj)
  from a b have "a div 1000 < 10" "b div 1000 < 10" by simp_all
  with m(1) have e3: "a div 1000 = b div 1000" by simp
  have "a div 100 div 10 = b div 100 div 10" using e3 by (simp add: div_mult2_eq [symmetric])
  from this m(2) have e2: "a div 100 = b div 100" by (rule div_mod_10_eq)
  have "a div 10 div 10 = b div 10 div 10" using e2 by (simp add: div_mult2_eq [symmetric])
  from this m(3) have e1: "a div 10 = b div 10" by (rule div_mod_10_eq)
  from e1 m(4) show ?thesis by (rule div_mod_10_eq)
qed

lemma pad2_inj: "a < 100 \<Longrightarrow> b < 100 \<Longrightarrow> pad2 a = pad2 b \<Longrightarrow> a = b"
proof -
  assume a: "a < 100" and b: "b < 100" and h: "pad2 a = pad2 b"
  from h have m: "a div 10 mod 10 = b div 10 mod 10" "a mod 10 = b mod 10"
    by (auto simp: pad2_def dest: digit_char_inj)
  from a b have "a div 10 < 10" "b div 10 < 10" by simp_all
  with m(1) have "a div 10 = b div 10" by simp
  from this m(2) show ?thesis by (rule div_mod_10_eq)
qed

lemma yyyy_mm_inj:
  "0 \<le> fst c \<Longrightarrow> fst c \<le> 9999 \<Longrightarrow> snd c < 100 \<Longrightarrow> 0 \<le> fst d \<Longrightarrow> fst d \<le> 9999 \<Longrightarrow> snd d < 100
   \<Longrightarrow> yyyy_mm c = yyyy_mm d \<Longrightarrow> c = d"
proof -
  assume c: "0 \<le> fst c" "fst c \<le> 9999" "snd c < 100" and d: "0 \<le> fst d" "fst d \<le> 9999" "snd d < 100"
    and h: "yyyy_mm c = yyyy_mm d"
  have l: "length (pad4 (nat (fst c))) = length (pad4 (nat (fst d)))" by (simp add: pad4_def)
  from h l have "pad4 (nat (fst c)) = pad4 (nat (fst d))" "pad2 (snd c) = pad2 (snd d)"
    unfolding yyyy_mm_def by simp_all
  with c d have "nat (fst c) = nat (fst d)" "snd c = snd d"
    by (auto intro: pad4_inj pad2_inj)
  with c d show ?thesis by (simp add: prod_eq_iff)
qed

lemma take_7_toISOString: "0 \<le> utc_year u \<Longrightarrow> utc_year u \<le> 9999 \<Longrightarrow>
  toISOString (ValidDate u) = Inr s \<Longrightarrow> take 7 s = yyyy_mm (utc_year u, utc_month u)"
  by (auto simp: iso_year_def yyyy_mm_def pad4_def pad2_def)

text \<open>
  A step of the aggregation adds the amount to the bucket of the month of the
  transaction. The \<^verbatim>\<open>reduce\<close> keeps the keys distinct, adds the keys of the
  transactions, and accumulates the expenses and the income per key.
\<close>

lemma monthly_step_valid:
  assumes "valid_transaction t" "four_digit_year t"
  shows "monthly_step acc t = Inr (AList.update (tkey t) (add_to_bucket t (bucket_at acc (tkey t))) acc)"
proof -
  from assms obtain u where u: "date t = ValidDate u" "0 \<le> utc_year u" "utc_year u \<le> 9999"
    by (auto simp: four_digit_year_def split: jsdate.splits)
  obtain s where s: "toISOString (date t) = Inr s" using u by simp
  with u have k: "take 7 s = tkey t"
    by (simp add: tkey_def take_7_toISOString del: toISOString.simps)
  show ?thesis
    unfolding monthly_step_def s
    by (simp add: k Let_def add_to_bucket_def bucket_at_def update_conv' split: option.splits)
qed

lemma bucket_at_update:
  "bucket_at (AList.update k' v acc) k = (if k = k' then v else bucket_at acc k)"
  by (simp add: bucket_at_def update_conv')

lemma reduce_monthly_valid:
  assumes "\<forall>t\<in>set ts. valid_transaction t \<and> four_digit_year t"
  shows "\<exists>md. reduce_monthly acc ts = Inr md \<and>
           (distinct (map fst acc) \<longrightarrow> distinct (map fst md)) \<and>
           fst ` set md = fst ` set acc \<union> tkey ` set ts \<and>
           (\<forall>k. expenses (bucket_at md k)
                  = sum_from (expenses (bucket_at acc k)) (month_expenses k ts) \<and>
                income (bucket_at md k)
                  = sum_from (income (bucket_at acc k)) (month_income k ts))"
  using assms
proof (induction ts arbitrary: acc)
  case Nil
  then show ?case by (simp add: month_expenses_def month_income_def sum_from_Nil)
next
  case (Cons t ts)
  let ?acc = "AList.update (tkey t) (add_to_bucket t (bucket_at acc (tkey t))) acc"
  from Cons.prems have st: "monthly_step acc t = Inr ?acc"
    by (simp add: monthly_step_valid)
  from Cons.prems have "\<forall>t\<in>set ts. valid_transaction t \<and> four_digit_year t" by simp
  from Cons.IH [OF this, of ?acc] obtain md where md:
    "reduce_monthly ?acc ts = Inr md"
    "distinct (map fst ?acc) \<longrightarrow> distinct (map fst md)"
    "fst ` set md = fst ` set ?acc \<union> tkey ` set ts"
    "\<forall>k. expenses (bucket_at md k)
           = sum_from (expenses (bucket_at ?acc k)) (month_expenses k ts) \<and>
         income (bucket_at md k)
           = sum_from (income (bucket_at ?acc k)) (month_income k ts)"
    by blast
  have 1: "reduce_monthly acc (t # ts) = Inr md" using st md(1) by simp
  have 2: "distinct (map fst acc) \<longrightarrow> distinct (map fst md)"
    using md(2) by (simp add: distinct_update)
  have 3: "fst ` set md = fst ` set acc \<union> tkey ` set (t # ts)"
    using md(3) by (simp add: dom_update)
  have 4: "expenses (bucket_at md k)
             = sum_from (expenses (bucket_at acc k)) (month_expenses k (t # ts)) \<and>
           income (bucket_at md k)
             = sum_from (income (bucket_at acc k)) (month_income k (t # ts))" for k
    using md(4)
    by (simp add: bucket_at_update add_to_bucket_def month_expenses_def month_income_def
        sum_from_Cons)
  from 1 2 3 4 show ?case by blast
qed

text \<open>From keys to calendar months.\<close>

lemma months_present_iff: "c \<in> months_present ts \<longleftrightarrow> (\<exists>t\<in>set ts. in_month c t)"
  unfolding months_present_def in_month_def
  by (induction ts) (auto split: option.splits)

lemma in_month_range:
  assumes "valid_transaction t" "four_digit_year t" "in_month c t"
  shows "0 \<le> fst c \<and> fst c \<le> 9999 \<and> snd c < 100"
  using assms
  by (auto simp: valid_transaction_def four_digit_year_def in_month_def wf_utc_def
      split: jsdate.splits)

lemma tkey_in_month:
  assumes "in_month c t"
  shows "tkey t = yyyy_mm c"
  using assms by (simp add: tkey_def in_month_def)

lemma valid_has_month:
  assumes "valid_transaction t"
  shows "\<exists>c. in_month c t"
  using assms by (auto simp: valid_transaction_def in_month_def split: jsdate.splits)

lemma tkey_eq_iff:
  assumes t: "valid_transaction t" "four_digit_year t"
    and c: "0 \<le> fst c" "fst c \<le> 9999" "snd c < 100"
  shows "tkey t = yyyy_mm c \<longleftrightarrow> in_month c t"
proof
  assume k: "tkey t = yyyy_mm c"
  from t(1) obtain d where d: "in_month d t" using valid_has_month by blast
  with t have r: "0 \<le> fst d" "fst d \<le> 9999" "snd d < 100" using in_month_range by blast+
  from d k have "yyyy_mm d = yyyy_mm c" by (simp add: tkey_in_month)
  with r c have "d = c" by (rule yyyy_mm_inj)
  with d show "in_month c t" by simp
next
  assume "in_month c t"
  then show "tkey t = yyyy_mm c" by (rule tkey_in_month)
qed

text \<open>
  Claim C1, as amended. For every list of transactions whose types are income or
  expense and whose dates are valid with a year between 0 and 9999, the aggregator
  returns an object with exactly one bucket per calendar month in which a transaction
  falls, under the key \<open>YYYY-MM\<close> of that month: the number of buckets is the number
  of distinct months present. The expenses of a bucket are the sum of the amounts of
  the month's expense transactions and its income the sum of the amounts of the month's
  income transactions, each sum added to 0 in the order of the list in double
  arithmetic.
\<close>

theorem getMonthlyData_buckets:
  assumes "\<forall>t\<in>set ts. valid_transaction t \<and> four_digit_year t"
  shows "\<exists>md. getMonthlyData ts = Inr md \<and>
           distinct (map fst md) \<and>
           fst ` set md = yyyy_mm ` months_present ts \<and>
           length md = card (months_present ts) \<and>
           (\<forall>c\<in>months_present ts. \<exists>b. map_of md (yyyy_mm c) = Some b \<and>
              expenses b = double_sum (map amount [t\<leftarrow>ts. in_month c t \<and> type t = ''expense'']) \<and>
              income b = double_sum (map amount [t\<leftarrow>ts. in_month c t \<and> type t = ''income'']))"
proof -
  from reduce_monthly_valid [OF assms, of "[]"] obtain md where md:
    "getMonthlyData ts = Inr md" "distinct (map fst md)" "fst ` set md = tkey ` set ts"
    "\<And>k. expenses (bucket_at md k) = double_sum (month_expenses k ts)"
    "\<And>k. income (bucket_at md k) = double_sum (month_income k ts)"
    by (auto simp: getMonthlyData_def bucket_at_def double_sum_def)
  have range: "0 \<le> fst c \<and> fst c \<le> 9999 \<and> snd c < 100" if "c \<in> months_present ts" for c
  proof -
    from that obtain t where "t \<in> set ts" "in_month c t" by (auto simp: months_present_iff)
    with assms show ?thesis using in_month_range [of t c] by blast
  qed
  have keys: "tkey ` set ts = yyyy_mm ` months_present ts"
  proof (intro set_eqI iffI)
    fix k assume "k \<in> tkey ` set ts"
    then obtain t where t: "t \<in> set ts" "k = tkey t" by blast
    with assms obtain c where c: "in_month c t" using valid_has_month by blast
    with t have "c \<in> months_present ts" "k = yyyy_mm c"
      by (auto simp: months_present_iff tkey_in_month)
    then show "k \<in> yyyy_mm ` months_present ts" by blast
  next
    fix k assume "k \<in> yyyy_mm ` months_present ts"
    then obtain c t where "t \<in> set ts" "in_month c t" "k = yyyy_mm c"
      by (auto simp: months_present_iff)
    then show "k \<in> tkey ` set ts" by (auto simp: tkey_in_month [symmetric])
  qed
  have inj: "inj_on yyyy_mm (months_present ts)"
  proof (rule inj_onI)
    fix c d assume "c \<in> months_present ts" "d \<in> months_present ts" "yyyy_mm c = yyyy_mm d"
    with range [of c] range [of d] show "c = d" by (auto intro: yyyy_mm_inj)
  qed
  have "length md = card (fst ` set md)"
    using md(2) by (metis distinct_card length_map set_map)
  also have "\<dots> = card (months_present ts)"
    using md(3) keys inj by (simp add: card_image)
  finally have len: "length md = card (months_present ts)" .
  have buckets: "\<exists>b. map_of md (yyyy_mm c) = Some b \<and>
              expenses b = double_sum (map amount [t\<leftarrow>ts. in_month c t \<and> type t = ''expense'']) \<and>
              income b = double_sum (map amount [t\<leftarrow>ts. in_month c t \<and> type t = ''income''])"
    if c: "c \<in> months_present ts" for c
  proof -
    from c have "yyyy_mm c \<in> yyyy_mm ` months_present ts" by (rule imageI)
    with md(3) keys have "yyyy_mm c \<in> fst ` set md" by simp
    then obtain b where b: "map_of md (yyyy_mm c) = Some b"
      by (metis domD dom_map_of_conv_image_fst)
    then have at: "bucket_at md (yyyy_mm c) = b" by (simp add: bucket_at_def)
    have p1: "(tkey t = yyyy_mm c) = in_month c t" if "t \<in> set ts" for t
    proof -
      from that assms have "valid_transaction t" "four_digit_year t" by blast+
      with range [OF c] show ?thesis by (intro tkey_eq_iff) blast+
    qed
    have p2: "(type t \<noteq> ''expense'') = (type t = ''income'')" if "t \<in> set ts" for t
    proof -
      from that assms have "type t = ''income'' \<or> type t = ''expense''"
        unfolding valid_transaction_def by blast
      then show ?thesis by auto
    qed
    have f1: "[t\<leftarrow>ts. tkey t = yyyy_mm c \<and> type t = ''expense''] = [t\<leftarrow>ts. in_month c t \<and> type t = ''expense'']"
      by (rule filter_cong [OF refl]) (simp add: p1)
    have f2: "[t\<leftarrow>ts. tkey t = yyyy_mm c \<and> type t \<noteq> ''expense''] = [t\<leftarrow>ts. in_month c t \<and> type t = ''income'']"
      by (rule filter_cong [OF refl]) (simp add: p1 p2)
    have e: "expenses b = double_sum (map amount [t\<leftarrow>ts. in_month c t \<and> type t = ''expense''])"
      using md(4) [of "yyyy_mm c"] at f1 by (simp add: month_expenses_def)
    have i: "income b = double_sum (map amount [t\<leftarrow>ts. in_month c t \<and> type t = ''income''])"
      using md(5) [of "yyyy_mm c"] at f2 by (simp add: month_income_def)
    from b e i show ?thesis by blast
  qed
  from md(3) keys have "fst ` set md = yyyy_mm ` months_present ts" by simp
  with md(1,2) len buckets show ?thesis by blast
qed

theorem getMonthlyData_buckets_witness:
  "list_all (\<lambda>t. valid_transaction t \<and> four_digit_year t)
     [tx ''expense'' 100 ''food'' 2024 1 15, tx ''income'' 50 ''salary'' 2024 1 20,
      tx ''expense'' 30 ''rent'' 2024 2 1] \<and>
   (\<exists>md. getMonthlyData
           [tx ''expense'' 100 ''food'' 2024 1 15, tx ''income'' 50 ''salary'' 2024 1 20,
            tx ''expense'' 30 ''rent'' 2024 2 1] = Inr md \<and> length md = 2)"
proof -
  let ?ts = "[tx ''expense'' 100 ''food'' 2024 1 15, tx ''income'' 50 ''salary'' 2024 1 20,
      tx ''expense'' 30 ''rent'' 2024 2 1]"
  have h: "\<forall>t\<in>set ?ts. valid_transaction t \<and> four_digit_year t"
    by (simp add: eval_defs)
  have c: "card (months_present ?ts) = 2"
    by (simp add: months_present_def tx_def utc_day_start_def)
  from getMonthlyData_buckets [OF h] c h show ?thesis by auto
qed

text \<open>
  The claim as stated fails in two ways. From the year 10000 on the first seven
  characters of the printed date are the sign and the six digits of the year, so two
  months of the year 10000 share the bucket \<open>+010000\<close>. And the sums are rounded: with
  an income of 0.1 followed by expenses of 0.2 and 0.3 (the doubles nearest to them) in
  one month, the expenses are 0.5 and the income is 0.1, and their sum is the double
  \<open>5404319552844595 / 2^53\<close>; the three amounts added in the order of the list give
  \<open>5404319552844596 / 2^53\<close>, and their exact sum is neither.
\<close>

theorem getMonthlyData_year_10000_counterexample:
  "list_all valid_transaction
     [tx ''expense'' 1 ''food'' 10000 1 15, tx ''expense'' 2 ''food'' 10000 2 15] \<and>
   getMonthlyData [tx ''expense'' 1 ''food'' 10000 1 15, tx ''expense'' 2 ''food'' 10000 2 15]
     = Inr [(''+010000'', \<lparr>expenses = Fin 3, income = Fin 0\<rparr>)] \<and>
   card (months_present
     [tx ''expense'' 1 ''food'' 10000 1 15, tx ''expense'' 2 ''food'' 10000 2 15]) = 2 \<and>
   getMonthlyData
     [tx ''income'' (3602879701896397 / 2 ^ 55) ''salary'' 2024 3 5,
      tx ''expense'' (3602879701896397 / 2 ^ 54) ''food'' 2024 3 6,
      tx ''expense'' (5404319552844595 / 2 ^ 54) ''rent'' 2024 3 7]
     = Inr [(''2024-03'', \<lparr>expenses = Fin (1 / 2), income = Fin (3602879701896397 / 2 ^ 55)\<rparr>)] \<and>
   js_add (Fin (1 / 2)) (Fin (3602879701896397 / 2 ^ 55)) = Fin (5404319552844595 / 2 ^ 53) \<and>
   double_sum [3602879701896397 / 2 ^ 55, 3602879701896397 / 2 ^ 54, 5404319552844595 / 2 ^ 54]
     = Fin (5404319552844596 / 2 ^ 53) \<and>
   3602879701896397 / 2 ^ 55 + 3602879701896397 / 2 ^ 54 + 5404319552844595 / 2 ^ 54
     = (21617278211378381 / 2 ^ 55 :: real) \<and>
   5404319552844595 / 2 ^ 53 = (21617278211378380 / 2 ^ 55 :: real)"
proof -
  have r1: "rnd64 (3602879701896397 / 2 ^ 54) = Fin (3602879701896397 / 2 ^ 54)"
    by (subst rnd64_scaled [of _ 55]) (simp_all add: round_half_even_def)
  have r2: "rnd64 (3602879701896397 / 2 ^ 55) = Fin (3602879701896397 / 2 ^ 55)"
    by (subst rnd64_scaled [of _ 56]) (simp_all add: round_half_even_def)
  have r3: "rnd64 (3602879701896397 / 2 ^ 54 + 5404319552844595 / 2 ^ 54) = Fin (1 / 2)"
    by (subst rnd64_scaled [of _ 53]) (simp_all add: round_half_even_def)
  have r4: "rnd64 (1 / 2 + 3602879701896397 / 2 ^ 55) = Fin (5404319552844595 / 2 ^ 53)"
    by (subst rnd64_scaled [of _ 53]) (simp_all add: round_half_even_def)
  have r5: "rnd64 (3602879701896397 / 2 ^ 55 + 3602879701896397 / 2 ^ 54)
            = Fin (5404319552844596 / 2 ^ 54)"
    by (subst rnd64_scaled [of _ 54]) (simp_all add: round_half_even_def)
  have r6: "rnd64 (5404319552844596 / 2 ^ 54 + 5404319552844595 / 2 ^ 54)
            = Fin (5404319552844596 / 2 ^ 53)"
    by (subst rnd64_scaled [of _ 53]) (simp_all add: round_half_even_def)
  have a: "list_all valid_transaction
     [tx ''expense'' 1 ''food'' 10000 1 15, tx ''expense'' 2 ''food'' 10000 2 15]"
    by (simp add: eval_defs)
  have b: "getMonthlyData [tx ''expense'' 1 ''food'' 10000 1 15, tx ''expense'' 2 ''food'' 10000 2 15]
     = Inr [(''+010000'', \<lparr>expenses = Fin 3, income = Fin 0\<rparr>)]"
    by (simp add: eval_defs rnd64_int)
  have c: "card (months_present
     [tx ''expense'' 1 ''food'' 10000 1 15, tx ''expense'' 2 ''food'' 10000 2 15]) = 2"
    by (simp add: eval_defs months_present_def)
  have d: "getMonthlyData
     [tx ''income'' (3602879701896397 / 2 ^ 55) ''salary'' 2024 3 5,
      tx ''expense'' (3602879701896397 / 2 ^ 54) ''food'' 2024 3 6,
      tx ''expense'' (5404319552844595 / 2 ^ 54) ''rent'' 2024 3 7]
     = Inr [(''2024-03'', \<lparr>expenses = Fin (1 / 2), income = Fin (3602879701896397 / 2 ^ 55)\<rparr>)]"
    using r1 r2 r3 by (simp add: eval_defs)
  have e: "js_add (Fin (1 / 2)) (Fin (3602879701896397 / 2 ^ 55)) = Fin (5404319552844595 / 2 ^ 53)"
    using r4 by simp
  have f: "double_sum [3602879701896397 / 2 ^ 55, 3602879701896397 / 2 ^ 54, 5404319552844595 / 2 ^ 54]
     = Fin (5404319552844596 / 2 ^ 53)"
    using r2 r5 r6 by (simp add: double_sum_def sum_from_def)
  have g: "3602879701896397 / 2 ^ 55 + 3602879701896397 / 2 ^ 54 + 5404319552844595 / 2 ^ 54
     = (21617278211378381 / 2 ^ 55 :: real)"
    by simp
  have h: "5404319552844595 / 2 ^ 53 = (21617278211378380 / 2 ^ 55 :: real)"
    by simp
  from a b c d e f g h show ?thesis by (intro conjI)
qed

section \<open>Properties of the backtester\<close>

text \<open>
  The loop in closed form: started at \<open>i\<close> with every month key present in the object,
  it appends the records of the indices from \<open>i\<close> on and never throws.
\<close>

lemma slice_three:
  assumes "3 \<le> i" "i \<le> length xs"
  shows "slice (i - 3) i xs = [xs ! (i - 3), xs ! (i - 2), xs ! (i - 1)]"
proof -
  from assms obtain j where j: "i = j + 3" by (metis le_add_diff_inverse2)
  with assms have l: "j + 3 \<le> length xs" by simp
  have "take 3 (drop j xs) = [xs ! j, xs ! (j + 1), xs ! (j + 2)]"
  proof (rule nth_equalityI)
    show "length (take 3 (drop j xs)) = length [xs ! j, xs ! (j + 1), xs ! (j + 2)]"
      using l by simp
  next
    fix k assume "k < length (take 3 (drop j xs))"
    then have "k < 3" by simp
    then consider "k = 0" | "k = 1" | "k = 2" by linarith
    then show "take 3 (drop j xs) ! k = [xs ! j, xs ! (j + 1), xs ! (j + 2)] ! k"
      using l by cases simp_all
  qed
  with j show ?thesis by (simp add: slice_def)
qed

lemma expenses_of_present:
  assumes "k \<in> fst ` set monthlyData"
  shows "expenses_of monthlyData k = Inr (expenses_at monthlyData k)"
proof -
  from assms obtain b where "map_of monthlyData k = Some b"
    by (metis domD dom_map_of_conv_image_fst)
  then show ?thesis by (simp add: expenses_of_def expenses_at_def)
qed

lemma sum_expenses_present:
  assumes "set ks \<subseteq> fst ` set monthlyData"
  shows "sum_expenses monthlyData s ks
         = Inr (foldl js_add s (map (expenses_at monthlyData) ks))"
  using assms
  by (induction ks arbitrary: s) (simp_all add: expenses_of_present)

lemma calculateAccuracy_spec: "calculateAccuracy p a = spec_accuracy p a"
  by (simp only: calculateAccuracy_def spec_accuracy_def clamp_commute Let_def)

lemma backtest_loop_closed:
  assumes keys: "set ms \<subseteq> fst ` set monthlyData"
  shows "3 \<le> i \<Longrightarrow> i \<le> length ms \<Longrightarrow>
         backtest_loop monthlyData ms i (ps, tot, cnt) =
           Inr (ps @ map (spec_accuracy_record monthlyData ms) [i..<length ms],
                foldl js_add tot
                  (map (\<lambda>j. spec_accuracy (spec_predicted monthlyData ms j)
                               (expenses_at monthlyData (ms ! j))) [i..<length ms]),
                cnt + (length ms - i))"
proof (induction "length ms - i" arbitrary: i ps tot cnt)
  case 0
  then have "i = length ms" by simp
  then show ?case by (simp add: backtest_loop.simps)
next
  case (Suc n)
  then have lt: "i < length ms" by simp
  from Suc.prems lt have sl: "slice (i - 3) i ms = [ms ! (i - 3), ms ! (i - 2), ms ! (i - 1)]"
    by (simp add: slice_three)
  from Suc.prems lt have "set (slice (i - 3) i ms) \<subseteq> set ms"
    unfolding slice_def by (meson order_trans set_drop_subset set_take_subset)
  with keys have "set (slice (i - 3) i ms) \<subseteq> fst ` set monthlyData" by simp
  then have se: "sum_expenses monthlyData (Fin 0) (slice (i - 3) i ms)
               = Inr (foldl js_add (Fin 0) (map (expenses_at monthlyData) (slice (i - 3) i ms)))"
    by (rule sum_expenses_present)
  define s where "s = foldl js_add (Fin 0) (map (expenses_at monthlyData) (slice (i - 3) i ms))"
  have s: "sum_expenses monthlyData (Fin 0) (slice (i - 3) i ms) = Inr s"
    "js_div s (Fin 3) = spec_predicted monthlyData ms i"
    using se by (simp_all add: s_def sl spec_predicted_def)
  from lt keys have "ms ! i \<in> fst ` set monthlyData" by (meson nth_mem subsetD)
  then have ex: "expenses_of monthlyData (ms ! i) = Inr (expenses_at monthlyData (ms ! i))"
    by (rule expenses_of_present)
  have n: "n = length ms - Suc i" using Suc.hyps(2) by simp
  have ih: "backtest_loop monthlyData ms (Suc i) (ps', tot', cnt') =
           Inr (ps' @ map (spec_accuracy_record monthlyData ms) [Suc i..<length ms],
                foldl js_add tot'
                  (map (\<lambda>j. spec_accuracy (spec_predicted monthlyData ms j)
                               (expenses_at monthlyData (ms ! j))) [Suc i..<length ms]),
                cnt' + (length ms - Suc i))" for ps' tot' cnt'
    using Suc.hyps(1) [OF n] Suc.prems lt by simp
  have up: "[i..<length ms] = i # [Suc i..<length ms]" using lt by (simp add: upt_conv_Cons)
  show ?case
    apply (subst backtest_loop.simps)
    using lt
    apply (simp add: s ex ih up calculateAccuracy_spec spec_accuracy_record_def Let_def)
    done
qed

lemma set_own_keys_order: "set (own_keys_order ks) = set ks"
  by (auto simp: own_keys_order_def)

lemma set_Object_keys: "set (Object_keys obj) = fst ` set obj"
  by (simp add: Object_keys_def set_own_keys_order)

lemma length_own_keys_order: "length (own_keys_order ks) = length ks"
proof -
  have "length (own_keys_order ks)
        = length (filter is_array_index ks) + length (filter (\<lambda>k. \<not> is_array_index k) ks)"
    by (simp add: own_keys_order_def)
  then show ?thesis by (simp add: sum_length_filter_compl)
qed

text \<open>
  The doubles of the example of four months, and the rounding to two decimals of an
  integer.
\<close>

lemma double_one_sixth: "rnd64 (1 / 6) = Fin (6004799503160661 / 2 ^ 55)"
  by (subst rnd64_scaled [of _ 55]) (simp_all add: round_half_even_def)

lemma double_five_sixths:
  "rnd64 (1 - 6004799503160661 / 2 ^ 55) = Fin (7505999378950827 / 2 ^ 53)"
  by (subst rnd64_scaled [of _ 53]) (simp_all add: round_half_even_def)

lemma double_83_3:
  "rnd64 (7505999378950827 / 2 ^ 53 * 100) = Fin (5864062014805334 / 2 ^ 46)"
  by (subst rnd64_scaled [of _ 46]) (simp_all add: round_half_even_def)

lemma double_8333_3:
  "rnd64 (5864062014805334 / 2 ^ 46 * 100) = Fin (4581298449066667 / 2 ^ 39)"
  by (subst rnd64_scaled [of _ 39]) (simp_all add: round_half_even_def)

lemma double_83_33: "rnd64 (8333 / 100) = Fin (5863827452324741 / 2 ^ 46)"
  by (subst rnd64_scaled [of _ 46]) (simp_all add: round_half_even_def)

lemma accuracy_200_240: "spec_accuracy (Fin 200) (Fin 240) = Fin (5864062014805334 / 2 ^ 46)"
proof -
  have a: "js_sub (Fin 200) (Fin 240) = Fin (- 40)"
    by (simp add: js_sub_def rnd64_int)
  have b: "js_div (Math_abs (Fin (- 40))) (Fin 240) = Fin (6004799503160661 / 2 ^ 55)"
    using double_one_sixth by simp
  have c: "js_sub (Fin 1) (Fin (6004799503160661 / 2 ^ 55)) = Fin (7505999378950827 / 2 ^ 53)"
    using double_five_sixths by (simp add: js_sub_def)
  have d: "js_mul (Fin (7505999378950827 / 2 ^ 53)) (Fin 100) = Fin (5864062014805334 / 2 ^ 46)"
    using double_83_3 by simp
  have e: "clamp (Fin 0) (Fin 100) (Fin (5864062014805334 / 2 ^ 46)) = Fin (5864062014805334 / 2 ^ 46)"
    by (simp add: clamp_def)
  show ?thesis
    by (simp only: spec_accuracy_def a b c d e) simp
qed

lemma round2_accuracy: "round2 (Fin (5864062014805334 / 2 ^ 46)) = rnd64 (8333 / 100)"
proof -
  have a: "js_mul (Fin (5864062014805334 / 2 ^ 46)) (Fin 100) = Fin (4581298449066667 / 2 ^ 39)"
    using double_8333_3 by simp
  have b: "Math_round (Fin (4581298449066667 / 2 ^ 39)) = Fin 8333"
    by (simp add: round_real_def)
  show ?thesis by (simp only: round2_def a b js_div.simps) simp
qed

lemma round2_integer:
  assumes "x \<in> \<int>" "\<bar>x\<bar> < 2 ^ 46"
  shows "round2 (Fin x) = Fin x"
proof -
  from assms(1) obtain n where n: "x = of_int n" by (auto elim: Ints_cases)
  have "\<bar>x * 100\<bar> < 2 ^ 53" using assms(2) by (simp add: abs_mult)
  moreover have "x * 100 \<in> \<int>" using assms(1) by simp
  ultimately have a: "js_mul (Fin x) (Fin 100) = Fin (x * 100)" by (simp add: rnd64_int)
  have b: "Math_round (Fin (x * 100)) = Fin (x * 100)"
    unfolding n by (simp add: round_real_def)
  have "\<bar>x\<bar> < 2 ^ 53" using assms(2) by simp
  with assms(1) have c: "rnd64 x = Fin x" by (rule rnd64_int)
  show ?thesis by (simp only: round2_def a b js_div.simps) (simp add: c)
qed

lemma backtest_closed:
  "\<exists>tot. backtest md =
      Inr (map (spec_accuracy_record md (sort (Object_keys md))) [3..<length (sort (Object_keys md))],
           tot, length (sort (Object_keys md)) - 3)"
proof (cases "3 \<le> length (sort (Object_keys md))")
  case True
  have "set (sort (Object_keys md)) \<subseteq> fst ` set md" by (simp add: set_Object_keys)
  from backtest_loop_closed [OF this order_refl True, of "[]" "Fin 0" 0]
  show ?thesis by (simp add: backtest_def)
next
  case False
  then show ?thesis by (simp add: backtest_def backtest_loop.simps)
qed

lemma four_months:
  "sort (Object_keys
     [(''2024-01'', \<lparr>expenses = a, income = Fin 0\<rparr>), (''2024-02'', \<lparr>expenses = b, income = Fin 0\<rparr>),
      (''2024-03'', \<lparr>expenses = c, income = Fin 0\<rparr>), (''2024-04'', \<lparr>expenses = d, income = Fin 0\<rparr>)])
   = [''2024-01'', ''2024-02'', ''2024-03'', ''2024-04'']"
  by (simp add: Object_keys_def own_keys_order_def is_array_index_def is_digit_def)

lemma accuracy_87_160: "spec_accuracy (Fin 87) (Fin 160) = Fin (7652600929320959 / 2 ^ 47)"
proof -
  have a: "js_sub (Fin 87) (Fin 160) = Fin (- 73)"
    by (simp add: js_sub_def rnd64_int)
  have "rnd64 (73 / 160) = Fin (8219069319951155 / 2 ^ 54)"
    by (subst rnd64_scaled [of _ 54]) (simp_all add: round_half_even_def)
  then have b: "js_div (Math_abs (Fin (- 73))) (Fin 160) = Fin (8219069319951155 / 2 ^ 54)"
    by simp
  have "rnd64 (1 - 8219069319951155 / 2 ^ 54) = Fin (4897664594765414 / 2 ^ 53)"
    by (subst rnd64_scaled [of _ 53]) (simp_all add: round_half_even_def)
  then have c: "js_sub (Fin 1) (Fin (8219069319951155 / 2 ^ 54)) = Fin (4897664594765414 / 2 ^ 53)"
    by (simp add: js_sub_def)
  have "rnd64 (4897664594765414 / 2 ^ 53 * 100) = Fin (7652600929320959 / 2 ^ 47)"
    by (subst rnd64_scaled [of _ 47]) (simp_all add: round_half_even_def)
  then have d: "js_mul (Fin (4897664594765414 / 2 ^ 53)) (Fin 100) = Fin (7652600929320959 / 2 ^ 47)"
    by simp
  have e: "clamp (Fin 0) (Fin 100) (Fin (7652600929320959 / 2 ^ 47)) = Fin (7652600929320959 / 2 ^ 47)"
    by (simp add: clamp_def)
  show ?thesis
    by (simp only: spec_accuracy_def a b c d e) simp
qed

lemma round2_accuracy_54_37: "round2 (Fin (7652600929320959 / 2 ^ 47)) = rnd64 (5437 / 100)"
proof -
  have "rnd64 (7652600929320959 / 2 ^ 47 * 100) = Fin (5978594476031999 / 2 ^ 40)"
    by (subst rnd64_scaled [of _ 40]) (simp_all add: round_half_even_def)
  then have a: "js_mul (Fin (7652600929320959 / 2 ^ 47)) (Fin 100) = Fin (5978594476031999 / 2 ^ 40)"
    by simp
  have b: "Math_round (Fin (5978594476031999 / 2 ^ 40)) = Fin 5437"
    by (simp add: round_real_def)
  show ?thesis by (simp only: round2_def a b js_div.simps) simp
qed

lemma double_54_37: "rnd64 (5437 / 100) = Fin (7651897241879183 / 2 ^ 47)"
  by (subst rnd64_scaled [of _ 47]) (simp_all add: round_half_even_def)

text \<open>
  Claim C3, as amended. For every aggregated history, with \<open>m\<^sub>0, \<dots>, m\<^sub>k\<^sub>-\<^sub>1\<close> its month
  keys sorted ascending, the backtest loop returns one accuracy record per index \<open>i\<close>
  from 3 to \<open>k - 1\<close>, in that order: the month is \<open>m\<^sub>i\<close>, \<open>predicted\<close> is the mean of the
  expenses of \<open>m\<^sub>i\<^sub>-\<^sub>3\<close>, \<open>m\<^sub>i\<^sub>-\<^sub>2\<close>, \<open>m\<^sub>i\<^sub>-\<^sub>1\<close>, \<open>actual\<close> is the expenses of \<open>m\<^sub>i\<close>, and
  \<open>accuracy\<close> is \<open>(1 - \<bar>predicted - actual\<bar> / actual) * 100\<close> clamped to the range from 0
  to 100, and 0 when \<open>actual\<close> is 0; each of the three is rounded to two decimals. Every
  operation is the one of double arithmetic, in the order in which
  \<open>spec_accuracy_record\<close> writes them. The loop never throws. On four months of
  expenses 100, 200, 300, 240 the only record is that of the fourth month, with
  predicted 200, actual 240 and accuracy 83.33, the double nearest to \<open>8333 / 100\<close>.
\<close>

theorem backtest_records:
  "(\<exists>tot. backtest monthlyData =
      Inr (map (spec_accuracy_record monthlyData (sort (Object_keys monthlyData)))
             [3..<length (sort (Object_keys monthlyData))],
           tot, length (sort (Object_keys monthlyData)) - 3)) \<and>
   (\<exists>tot. backtest
      [(''2024-01'', \<lparr>expenses = Fin 100, income = Fin 0\<rparr>),
       (''2024-02'', \<lparr>expenses = Fin 200, income = Fin 0\<rparr>),
       (''2024-03'', \<lparr>expenses = Fin 300, income = Fin 0\<rparr>),
       (''2024-04'', \<lparr>expenses = Fin 240, income = Fin 0\<rparr>)] =
      Inr ([\<lparr>month = ''2024-04'', predicted = Fin 200, actual = Fin 240,
             accuracy = rnd64 (8333 / 100)\<rparr>], tot, 1))"
proof -
  let ?md = "[(''2024-01'', \<lparr>expenses = Fin 100, income = Fin 0\<rparr>),
       (''2024-02'', \<lparr>expenses = Fin 200, income = Fin 0\<rparr>),
       (''2024-03'', \<lparr>expenses = Fin 300, income = Fin 0\<rparr>),
       (''2024-04'', \<lparr>expenses = Fin 240, income = Fin 0\<rparr>)]"
  have p: "spec_predicted ?md [''2024-01'', ''2024-02'', ''2024-03'', ''2024-04''] 3 = Fin 200"
    by (simp add: spec_predicted_def expenses_at_def rnd64_int)
  have a: "expenses_at ?md ([''2024-01'', ''2024-02'', ''2024-03'', ''2024-04''] ! 3) = Fin 240"
    by (simp add: expenses_at_def)
  have rec: "spec_accuracy_record ?md [''2024-01'', ''2024-02'', ''2024-03'', ''2024-04''] 3
             = \<lparr>month = ''2024-04'', predicted = Fin 200, actual = Fin 240,
                accuracy = rnd64 (8333 / 100)\<rparr>"
    unfolding spec_accuracy_record_def p a accuracy_200_240 round2_accuracy
    by (simp add: round2_integer)
  have up: "[3..<4] = [3::nat]" by (simp add: upt_rec)
  from backtest_closed [of ?md] have "\<exists>tot. backtest ?md =
      Inr ([\<lparr>month = ''2024-04'', predicted = Fin 200, actual = Fin 240,
             accuracy = rnd64 (8333 / 100)\<rparr>], tot, 1)"
    unfolding four_months by (simp add: rec [unfolded numeral_3_eq_3] up)
  with backtest_closed [of monthlyData] show ?thesis by blast
qed

text \<open>
  The claim as stated, with the arithmetic of the real numbers, fails. On four months of
  expenses 77, 87, 97, 160 the prediction is 87 and the accuracy is
  \<open>(1 - 73 / 160) * 100 = 54.375\<close>, which rounds to 54.38. The code rounds the quotient
  \<open>73 / 160\<close> and the difference from 1 to doubles, obtains a product just below 5437.5,
  and records 54.37, the double nearest to \<open>5437 / 100\<close>.
\<close>

theorem backtest_rounding_counterexample:
  "(\<exists>tot. backtest
      [(''2024-01'', \<lparr>expenses = Fin 77, income = Fin 0\<rparr>),
       (''2024-02'', \<lparr>expenses = Fin 87, income = Fin 0\<rparr>),
       (''2024-03'', \<lparr>expenses = Fin 97, income = Fin 0\<rparr>),
       (''2024-04'', \<lparr>expenses = Fin 160, income = Fin 0\<rparr>)] =
      Inr ([\<lparr>month = ''2024-04'', predicted = Fin 87, actual = Fin 160,
             accuracy = Fin (7651897241879183 / 2 ^ 47)\<rparr>], tot, 1)) \<and>
   rnd64 (5437 / 100) = Fin (7651897241879183 / 2 ^ 47) \<and>
   rnd64 (5438 / 100) = Fin (7653304616762737 / 2 ^ 47) \<and>
   (1 - \<bar>(77 + 87 + 97) / 3 - 160\<bar> / 160) * 100 = (54375 / 1000 :: real) \<and>
   round_real (54375 / 1000 * 100) / 100 = 5438 / 100"
proof -
  let ?md = "[(''2024-01'', \<lparr>expenses = Fin 77, income = Fin 0\<rparr>),
       (''2024-02'', \<lparr>expenses = Fin 87, income = Fin 0\<rparr>),
       (''2024-03'', \<lparr>expenses = Fin 97, income = Fin 0\<rparr>),
       (''2024-04'', \<lparr>expenses = Fin 160, income = Fin 0\<rparr>)]"
  have p: "spec_predicted ?md [''2024-01'', ''2024-02'', ''2024-03'', ''2024-04''] 3 = Fin 87"
    by (simp add: spec_predicted_def expenses_at_def rnd64_int)
  have a: "expenses_at ?md ([''2024-01'', ''2024-02'', ''2024-03'', ''2024-04''] ! 3) = Fin 160"
    by (simp add: expenses_at_def)
  have rec: "spec_accuracy_record ?md [''2024-01'', ''2024-02'', ''2024-03'', ''2024-04''] 3
             = \<lparr>month = ''2024-04'', predicted = Fin 87, actual = Fin 160,
                accuracy = Fin (7651897241879183 / 2 ^ 47)\<rparr>"
    unfolding spec_accuracy_record_def p a accuracy_87_160 round2_accuracy_54_37 double_54_37
    by (simp add: round2_integer)
  have up: "[3..<4] = [3::nat]" by (simp add: upt_rec)
  from backtest_closed [of ?md] have 1: "\<exists>tot. backtest ?md =
      Inr ([\<lparr>month = ''2024-04'', predicted = Fin 87, actual = Fin 160,
             accuracy = Fin (7651897241879183 / 2 ^ 47)\<rparr>], tot, 1)"
    unfolding four_months by (simp add: rec [unfolded numeral_3_eq_3] up)
  have 2: "(1 - \<bar>(77 + 87 + 97) / 3 - 160\<bar> / 160) * 100 = (54375 / 1000 :: real)"
    by simp
  have 3: "round_real (54375 / 1000 * 100) / 100 = 5438 / 100"
    by (simp add: round_real_def)
  have 4: "rnd64 (5438 / 100) = Fin (7653304616762737 / 2 ^ 47)"
    by (subst rnd64_scaled [of _ 47]) (simp_all add: round_half_even_def)
  from 1 double_54_37 4 2 3 show ?thesis by (intro conjI)
qed

section \<open>Properties of the moving-average predictor\<close>

text \<open>
  The prediction. It is \<^verbatim>\<open>null\<close> exactly when there are fewer than three
  transactions; otherwise it is the sum of the expenses of the last three (or fewer)
  month keys, added to 0 in ascending order of the keys, divided by 3. Three months
  with expenses of 100, 200 and 300 give 200.
\<close>

lemma predictNextMonthSpending_null_iff:
  "predictNextMonthSpending ts = Inr None \<longleftrightarrow> length ts < 3"
  by (auto simp: predictNextMonthSpending_def Let_def split: sum.splits)

lemma map_expenses_present:
  assumes "set ks \<subseteq> fst ` set monthlyData"
  shows "map_expenses monthlyData ks = Inr (map (expenses_at monthlyData) ks)"
  using assms by (induction ks) (simp_all add: expenses_of_present)

lemma predictNextMonthSpending_recent:
  assumes "3 \<le> length ts" "getMonthlyData ts = Inr monthlyData"
  shows "predictNextMonthSpending ts =
         Inr (Some \<lparr>prediction =
                      js_div (foldl js_add (Fin 0)
                                (map (expenses_at monthlyData)
                                   (slice_last 3 (sort (Object_keys monthlyData)))))
                        (Fin 3),
                    confidence =
                      calculateConfidence (map (expenses_at monthlyData)
                                  (slice_last 3 (sort (Object_keys monthlyData))))\<rparr>)"
proof -
  have "set (slice_last 3 (sort (Object_keys monthlyData))) \<subseteq> set (sort (Object_keys monthlyData))"
    unfolding slice_last_def by (rule set_drop_subset)
  then have "set (slice_last 3 (sort (Object_keys monthlyData))) \<subseteq> fst ` set monthlyData"
    by (simp add: set_Object_keys)
  then have "map_expenses monthlyData (slice_last 3 (sort (Object_keys monthlyData)))
             = Inr (map (expenses_at monthlyData) (slice_last 3 (sort (Object_keys monthlyData))))"
    by (rule map_expenses_present)
  with assms show ?thesis
    by (simp add: predictNextMonthSpending_def Let_def)
qed

lemma predictNextMonthSpending_jan_feb_mar:
  "\<exists>c. predictNextMonthSpending
          [tx ''expense'' 100 ''food'' 2024 1 5, tx ''expense'' 200 ''food'' 2024 2 5,
           tx ''expense'' 300 ''food'' 2024 3 5]
        = Inr (Some \<lparr>prediction = Fin 200, confidence = c\<rparr>)"
proof -
  let ?ts = "[tx ''expense'' 100 ''food'' 2024 1 5, tx ''expense'' 200 ''food'' 2024 2 5,
           tx ''expense'' 300 ''food'' 2024 3 5]"
  let ?md = "[(''2024-01'', \<lparr>expenses = Fin 100, income = Fin 0\<rparr>),
              (''2024-02'', \<lparr>expenses = Fin 200, income = Fin 0\<rparr>),
              (''2024-03'', \<lparr>expenses = Fin 300, income = Fin 0\<rparr>)]"
  have md: "getMonthlyData ?ts = Inr ?md" by (simp add: eval_defs rnd64_int)
  have ks: "slice_last 3 (sort (Object_keys ?md)) = [''2024-01'', ''2024-02'', ''2024-03'']"
    by (simp add: Object_keys_def own_keys_order_def is_array_index_def is_digit_def slice_last_def)
  have "3 \<le> length ?ts" by simp
  from predictNextMonthSpending_recent [OF this md] show ?thesis
    unfolding ks by (simp add: expenses_at_def rnd64_int)
qed

text \<open>
  Claim C2 says that the predictor returns \<^verbatim>\<open>null\<close> exactly when the transactions span
  fewer than three distinct months, and otherwise the mean of the expenses of the three
  most recent months. The guard of line 94 counts transactions, not months: three
  expenses of 100 within January 2024 span one month, and the predictor returns a
  prediction, the expenses 300 of the single bucket divided by 3.
\<close>

theorem predictNextMonthSpending_one_month:
  "predictNextMonthSpending
     [tx ''expense'' 100 ''food'' 2024 1 5, tx ''expense'' 100 ''food'' 2024 1 6,
      tx ''expense'' 100 ''food'' 2024 1 7]
     = Inr (Some \<lparr>prediction = Fin 100, confidence = Fin 0\<rparr>) \<and>
   card (months_present
     [tx ''expense'' 100 ''food'' 2024 1 5, tx ''expense'' 100 ''food'' 2024 1 6,
      tx ''expense'' 100 ''food'' 2024 1 7]) = 1"
  by (simp add: predictNextMonthSpending_def eval_defs Object_keys_def own_keys_order_def
      is_array_index_def is_digit_def slice_last_def expenses_of_def calculateConfidence_def
      months_present_def rnd64_int)

text \<open>
  Claim C9 says that the confidence is 0 when the mean of the window is 0, so that it is
  always a number from 0 to 100. \<^verbatim>\<open>calculateConfidence\<close> returns 0 for fewer than two
  values and has no case for a mean of 0: on three months without expenses the
  coefficient of variation is 0 / 0, and the confidence is NaN.
\<close>

theorem calculateConfidence_zero_window:
  "calculateConfidence [Fin 0, Fin 0, Fin 0] = NaN"
  by (simp add: calculateConfidence_def Let_def js_sub_def Math_pow2_def rnd64_zero)

section \<open>Properties of the linear-regression predictor\<close>

text \<open>
  On fewer than two data points the denominator of the slope is 0, and so is the
  numerator unless it is NaN: the function returns NaN. Two points give the line through
  them, evaluated at \<open>n + 1 = 3\<close>.
\<close>

lemma upt_0_3: "[0..<3] = [0, 1, 2]"
  by (simp add: upt_rec)

lemma calculateSpendingPrediction_fewer_than_two:
  assumes "length historicalData < 2"
  shows "calculateSpendingPrediction historicalData = NaN"
proof -
  from assms consider "historicalData = []" | t where "historicalData = [t]"
    by (cases historicalData) (auto simp: less_Suc_eq_0_disj numeral_2_eq_2)
  then show ?thesis
  proof cases
    case 1
    then show ?thesis
      by (simp add: calculateSpendingPrediction_def Let_def js_sub_def rnd64_zero)
  next
    case 2
    show ?thesis
      unfolding 2
      by (cases "rnd64 (amount t)")
        (simp_all add: calculateSpendingPrediction_def Let_def js_sub_def rnd64_zero rnd64_int
          rnd64_not_NaN signed_inf_def)
  qed
qed

lemma calculateSpendingPrediction_two_points:
  "calculateSpendingPrediction
     [tx ''expense'' 10 ''food'' 2024 1 1, tx ''expense'' 20 ''food'' 2024 2 1] = Fin 40"
  by (simp add: calculateSpendingPrediction_def Let_def tx_def round_real_def upt_rec js_sub_def
      rnd64_int)

text \<open>
  Claim C7 says that the fitted line is evaluated at \<open>x = n\<close>, so that the amounts 10,
  20, 30 give 40. The code evaluates it at \<open>n + 1\<close> (mlModel.js, line 16): with slope
  10 and intercept 10 it returns 50.
\<close>

theorem calculateSpendingPrediction_10_20_30:
  "calculateSpendingPrediction
     [tx ''expense'' 10 ''food'' 2024 1 1, tx ''expense'' 20 ''food'' 2024 2 1,
      tx ''expense'' 30 ''food'' 2024 3 1] = Fin 50"
  by (simp add: calculateSpendingPrediction_def Let_def tx_def round_real_def upt_0_3 js_sub_def
      rnd64_int)

text \<open>
  Claim C8 says that the prediction is 0 when the denominator \<open>n * sumXX - sumX\<^sup>2\<close> is 0.
  The code divides without a test: on no data point and on one data point the slope is
  0 / 0, and the prediction is NaN, which \<^verbatim>\<open>Math.max(0, NaN)\<close> does not clamp.
\<close>

theorem calculateSpendingPrediction_degenerate:
  "calculateSpendingPrediction [] = NaN \<and>
   calculateSpendingPrediction [tx ''expense'' 5 ''food'' 2024 1 1] = NaN"
  by (simp add: calculateSpendingPrediction_def Let_def tx_def round_real_def js_sub_def
      rnd64_int rnd64_zero)

section \<open>Operations that return a value\<close>

text \<open>
  When no date is invalid, the aggregator, the moving-average predictor and the accuracy
  route return a value; the backtest loop returns one on every object. The regression
  is a total function into \<open>jsnum\<close>.
\<close>

lemma monthly_step_returns:
  assumes "date t \<noteq> InvalidDate"
  shows "\<exists>acc'. monthly_step acc t = Inr acc'"
proof -
  from assms obtain u where "date t = ValidDate u" by (cases "date t") auto
  then show ?thesis
    by (simp add: monthly_step_def Let_def update_conv' split: option.splits)
qed

lemma reduce_monthly_returns:
  assumes "\<forall>t\<in>set ts. date t \<noteq> InvalidDate"
  shows "\<exists>md. reduce_monthly acc ts = Inr md"
  using assms
proof (induction ts arbitrary: acc)
  case Nil
  then show ?case by simp
next
  case (Cons t ts)
  then obtain acc' where "monthly_step acc t = Inr acc'"
    using monthly_step_returns [of t acc] by auto
  with Cons show ?case by simp
qed

lemma getMonthlyData_returns:
  assumes "\<forall>t\<in>set ts. date t \<noteq> InvalidDate"
  shows "\<exists>md. getMonthlyData ts = Inr md"
  using reduce_monthly_returns [OF assms] by (simp add: getMonthlyData_def)

lemma predictNextMonthSpending_returns:
  assumes "\<forall>t\<in>set ts. date t \<noteq> InvalidDate"
  shows "\<exists>r. predictNextMonthSpending ts = Inr r"
proof (cases "length ts < 3")
  case True
  then show ?thesis by (simp add: predictNextMonthSpending_def)
next
  case False
  from getMonthlyData_returns [OF assms] obtain md where "getMonthlyData ts = Inr md" by blast
  with False show ?thesis using predictNextMonthSpending_recent [of ts md] by simp
qed

lemma backtest_returns: "\<exists>st. backtest monthlyData = Inr st"
proof (cases "3 \<le> length (sort (Object_keys monthlyData))")
  case True
  have "set (sort (Object_keys monthlyData)) \<subseteq> fst ` set monthlyData"
    by (simp add: set_Object_keys)
  from backtest_loop_closed [OF this order_refl True, of "[]" "Fin 0" 0]
  show ?thesis by (simp add: backtest_def)
next
  case False
  then show ?thesis by (simp add: backtest_def backtest_loop.simps)
qed

lemma accuracy_route_returns:
  assumes "\<forall>t\<in>set ts. date t \<noteq> InvalidDate"
  shows "\<exists>r. accuracy_route ts = Inr r"
proof -
  from getMonthlyData_returns [OF assms] obtain md where md: "getMonthlyData ts = Inr md" by blast
  from backtest_returns [of md] obtain st where "backtest md = Inr st" by blast
  with md show ?thesis by (cases st) (simp add: accuracy_route_def)
qed

section \<open>Properties of the per-budget recommender\<close>

text \<open>
  The loop over the budgets, when no date is invalid: it appends, in the order of the
  budgets, one recommendation of priority high for each budget whose category spent
  more in the current month than the budget allows, and nothing for the others.
\<close>

lemma sum_from_map: "sum_from s (map f xs) = foldl (\<lambda>sum t. js_add sum (Fin (f t))) s xs"
  unfolding sum_from_def by (induction xs arbitrary: s) simp_all

lemma double_sum_map: "double_sum (map f xs) = foldl (\<lambda>sum t. js_add sum (Fin (f t))) (Fin 0) xs"
  by (simp add: double_sum_def sum_from_map)

lemma category_transactions_valid:
  assumes "\<forall>t\<in>set ts. date t \<noteq> InvalidDate"
  shows "category_transactions c currentMonth ts =
         Inr [t\<leftarrow>ts. category t = c \<and> type t = ''expense'' \<and> month_key t = currentMonth]"
  using assms
proof (induction ts)
  case Nil
  then show ?case by simp
next
  case (Cons t ts)
  from Cons.prems obtain u where u: "date t = ValidDate u" by (cases "date t") auto
  from Cons.prems have "\<forall>t\<in>set ts. date t \<noteq> InvalidDate" by simp
  from Cons.IH [OF this] u show ?case
    by (simp add: month_key_def)
qed

lemma budget_loop_valid:
  assumes "\<forall>t\<in>set ts. date t \<noteq> InvalidDate"
  shows "budget_loop currentMonth ts budgets recs =
         Inr (recs @ budget_recommendations currentMonth ts budgets)"
proof (induction budgets arbitrary: recs)
  case Nil
  then show ?case by (simp add: budget_recommendations_def)
next
  case (Cons b budgets)
  have ct: "category_transactions (b_category b) currentMonth ts =
         Inr [t\<leftarrow>ts. category t = b_category b \<and> type t = ''expense'' \<and> month_key t = currentMonth]"
    using assms by (rule category_transactions_valid)
  have sp: "foldl (\<lambda>sum t. js_add sum (Fin (amount t))) (Fin 0)
              [t\<leftarrow>ts. category t = b_category b \<and> type t = ''expense'' \<and> month_key t = currentMonth]
            = category_spending currentMonth ts (b_category b)"
    by (simp add: category_spending_def double_sum_map)
  show ?case
    by (simp add: ct sp Let_def Cons.IH budget_recommendations_def overspend_recommendation_def)
qed

text \<open>
  Claim C4 says that every core operation returns a value and throws nothing. The
  per-budget recommender throws on every input: after the loop over the budgets it
  reads \<^verbatim>\<open>months\<close>, which is not declared in its scope. So it never returns a list
  of recommendations; on no transaction and no budget the error is the ReferenceError.
\<close>

theorem generateRecommendations_throws:
  "(\<exists>e. generateRecommendations now transactions budgets = Inl e) \<and>
   generateRecommendations now [] [] = Inl ReferenceError"
  by (simp add: generateRecommendations_def generateRecommendations_in_def eval_defs
      split: sum.splits)

text \<open>
  Claim C5 says that a budget of 100 for food and food expenses of 150 in the current
  month yield the recommendation to reduce spending in food by $50.00. The loop over
  the budgets builds exactly that recommendation, and the function then throws the
  ReferenceError instead of returning it.
\<close>

theorem generateRecommendations_food_budget:
  "generateRecommendations (utc_day_start 2024 3 20) [tx ''expense'' 150 ''food'' 2024 3 5]
      [\<lparr>b_category = ''food'', b_amount = 100, b_type = ''expense''\<rparr>] = Inl ReferenceError \<and>
   budget_loop ''2024-03'' [tx ''expense'' 150 ''food'' 2024 3 5]
      [\<lparr>b_category = ''food'', b_amount = 100, b_type = ''expense''\<rparr>] []
     = Inr [\<lparr>r_category = ''food'', message = ''Reduce spending in food by $50.00'',
             priority = ''high''\<rparr>]"
  by (simp add: generateRecommendations_def generateRecommendations_in_def eval_defs js_sub_def
      rnd64_int nat_to_string.simps)

text \<open>
  Claim C6 says that the general recommendation is appended when the expenses of the
  current month exceed 1.1 times those of the previous month. With expenses of 100 in
  February and 200 in March 2024 the function throws the ReferenceError; had
  \<^verbatim>\<open>months\<close> been bound to the sorted month keys, it would have returned the general
  recommendation.
\<close>

theorem generateRecommendations_higher_spending:
  "generateRecommendations (utc_day_start 2024 3 20)
      [tx ''expense'' 100 ''food'' 2024 2 5, tx ''expense'' 200 ''food'' 2024 3 5] []
     = Inl ReferenceError \<and>
   generateRecommendations_in (Some [''2024-02'', ''2024-03'']) (utc_day_start 2024 3 20)
      [tx ''expense'' 100 ''food'' 2024 2 5, tx ''expense'' 200 ''food'' 2024 3 5] []
     = Inr [general_recommendation]"
proof -
  have a: "rnd64 (11 / 10) = Fin (4953959590107546 / 2 ^ 52)"
    by (subst rnd64_scaled [of _ 52]) (simp_all add: round_half_even_def)
  have b: "rnd64 (100 * (4953959590107546 / 2 ^ 52)) = Fin (7740561859543041 / 2 ^ 46)"
    by (subst rnd64_scaled [of _ 46]) (simp_all add: round_half_even_def)
  have c: "js_gt (Fin 200) (js_mul (Fin 100) (rnd64 (11 / 10)))"
    unfolding a js_mul.simps b by simp
  have d: "getMonthlyData
             [tx ''expense'' 100 ''food'' 2024 2 5, tx ''expense'' 200 ''food'' 2024 3 5]
           = Inr [(''2024-02'', \<lparr>expenses = Fin 100, income = Fin 0\<rparr>),
                  (''2024-03'', \<lparr>expenses = Fin 200, income = Fin 0\<rparr>)]"
    by (simp add: eval_defs rnd64_int)
  have e: "toISOString (ValidDate (utc_day_start 2024 3 20)) = Inr ''2024-03-20T00:00:00.000Z''"
    by (simp add: eval_defs)
  show ?thesis
    unfolding generateRecommendations_def generateRecommendations_in_def d e
    using c by simp
qed

section \<open>Properties of the surplus-mode recommender\<close>

lemma set_first_occurrences: "set (first_occurrences xs) = set xs"
  by (induction xs) auto

lemma distinct_first_occurrences: "distinct (first_occurrences xs)"
  by (induction xs) (simp_all add: set_first_occurrences)

text \<open>
  The object of the totals, when no category of an expense names a member of
  \<^verbatim>\<open>Object.prototype\<close>: its keys are the categories of the expenses in the order of
  their first occurrence, and the total of a key is the sum of its expenses, added to 0
  in the order of the transactions. No total is NaN.
\<close>

lemma js_or_zero_id: "x \<noteq> NaN \<Longrightarrow> js_or_zero x = x"
  by (cases x) simp_all

lemma total_step_plain:
  assumes "category t \<notin> set Object_prototype_names"
  shows "total_step acc t = Some (plain_step acc t)"
  using assms by (simp add: total_step_def plain_step_def total_at_def split: option.splits)

lemma reduce_totals_plain:
  assumes "list_all (\<lambda>t. category t \<notin> set Object_prototype_names) xs"
  shows "reduce_totals acc xs = Some (foldl plain_step acc xs)"
  using assms by (induction xs arbitrary: acc) (simp_all add: total_step_plain)

lemma plain_step_keys:
  "map fst (plain_step acc t) =
     (if category t \<in> fst ` set acc then map fst acc else map fst acc @ [category t])"
  by (simp add: plain_step_def update_keys)

lemma plain_step_lookup:
  "map_of (plain_step acc t) c =
     (if c = category t then Some (js_add (js_or_zero (total_at acc c)) (Fin (amount t)))
      else map_of acc c)"
  by (simp add: plain_step_def update_conv')

lemma foldl_plain_step_keys:
  "map fst (foldl plain_step acc xs) =
     map fst acc @ filter (\<lambda>k. k \<notin> fst ` set acc) (first_occurrences (map category xs))"
proof (induction xs arbitrary: acc)
  case Nil
  then show ?case by simp
next
  case (Cons t xs)
  let ?c = "category t"
  let ?fo = "first_occurrences (map category xs)"
  show ?case
  proof (cases "?c \<in> fst ` set acc")
    case True
    then have k: "fst ` set (plain_step acc t) = fst ` set acc"
      by (auto simp: plain_step_def dom_update)
    have "filter (\<lambda>k. k \<notin> fst ` set acc) (filter (\<lambda>y. y \<noteq> ?c) ?fo)
          = filter (\<lambda>k. k \<notin> fst ` set acc) ?fo"
      using True by (auto intro!: filter_cong)
    with True show ?thesis
      by (simp add: Cons.IH plain_step_keys k)
  next
    case False
    then have k: "fst ` set (plain_step acc t) = insert ?c (fst ` set acc)"
      by (auto simp: plain_step_def dom_update)
    have "filter (\<lambda>k. k \<notin> insert ?c (fst ` set acc)) ?fo
          = filter (\<lambda>k. k \<notin> fst ` set acc) (filter (\<lambda>y. y \<noteq> ?c) ?fo)"
      by (auto intro!: filter_cong)
    with False show ?thesis
      by (simp add: Cons.IH plain_step_keys k)
  qed
qed

lemma foldl_plain_step_lookup:
  assumes "\<forall>c. total_at acc c \<noteq> NaN"
  shows "total_at (foldl plain_step acc xs) c
           = sum_from (total_at acc c) (map amount [t\<leftarrow>xs. category t = c])"
  using assms
proof (induction xs arbitrary: acc)
  case Nil
  then show ?case by (simp add: sum_from_Nil)
next
  case (Cons t xs)
  have st: "total_at (plain_step acc t) k
            = (if category t = k then js_add (total_at acc k) (Fin (amount t)) else total_at acc k)"
    for k
    using Cons.prems by (auto simp: total_at_def plain_step_lookup js_or_zero_id)
  have "\<forall>k. total_at (plain_step acc t) k \<noteq> NaN"
    using Cons.prems by (simp add: st js_add_Fin_not_NaN)
  from Cons.IH [OF this] show ?case
    by (simp add: st sum_from_Cons)
qed

lemma categoryTotals_plain:
  assumes "plain_categories ts"
  shows "categoryTotals ts = Some (foldl plain_step [] [t\<leftarrow>ts. type t = ''expense''])"
  using assms by (simp add: categoryTotals_def plain_categories_def reduce_totals_plain)

lemma keys_categoryTotals:
  assumes "categoryTotals ts = Some totals"  "plain_categories ts"
  shows "Object_keys totals = expense_categories ts"
proof -
  from assms have "totals = foldl plain_step [] [t\<leftarrow>ts. type t = ''expense'']"
    by (simp add: categoryTotals_plain)
  then show ?thesis
    by (simp add: Object_keys_def expense_categories_def foldl_plain_step_keys)
qed

lemma total_at_categoryTotals:
  assumes "categoryTotals ts = Some totals"  "plain_categories ts"
  shows "total_at totals c = category_total ts c"
proof -
  have f: "[t\<leftarrow>filter (\<lambda>t. type t = ''expense'') ts. category t = c]
        = [t\<leftarrow>ts. type t = ''expense'' \<and> category t = c]"
    by (simp add: conj_commute)
  have z: "\<forall>k. total_at [] k \<noteq> NaN" by (simp add: total_at_def)
  from assms have "totals = foldl plain_step [] [t\<leftarrow>ts. type t = ''expense'']"
    by (simp add: categoryTotals_plain)
  then show ?thesis
    using foldl_plain_step_lookup [OF z, of "[t\<leftarrow>ts. type t = ''expense'']" c]
    by (simp add: f category_total_def double_sum_def total_at_def)
qed

lemma category_total_not_NaN: "category_total ts c \<noteq> NaN"
  by (simp add: category_total_def double_sum_def sum_from_not_NaN)

lemma distinct_own_keys_order:
  assumes "distinct ks"
  shows "distinct (own_keys_order ks)"
  using assms by (auto simp: own_keys_order_def)

lemma distinct_expense_categories: "distinct (expense_categories ts)"
  by (simp add: expense_categories_def distinct_own_keys_order distinct_first_occurrences)

lemma set_expense_categories:
  "set (expense_categories ts) = category ` {t \<in> set ts. type t = ''expense''}"
  by (simp add: expense_categories_def set_own_keys_order set_first_occurrences)

text \<open>
  The \<^verbatim>\<open>reduce\<close> over the keys returns the last key of maximal total.
\<close>

lemma greater_total_present:
  assumes "a \<in> fst ` set totals" "b \<in> fst ` set totals"
  shows "greater_total totals a b \<longleftrightarrow> js_gt (total_at totals a) (total_at totals b)"
proof -
  from assms obtain x y where "map_of totals a = Some x" "map_of totals b = Some y"
    by (metis domD dom_map_of_conv_image_fst)
  then show ?thesis by (simp add: greater_total_def total_at_def)
qed

lemma dropWhile_snoc_mem:
  assumes "c \<in> set xs"
  shows "tl (dropWhile (\<lambda>k. k \<noteq> c) (xs @ [b])) = tl (dropWhile (\<lambda>k. k \<noteq> c) xs) @ [b]"
proof -
  from assms have ne: "dropWhile (\<lambda>k. k \<noteq> c) xs \<noteq> []" by (simp add: dropWhile_eq_Nil_conv)
  from assms have "dropWhile (\<lambda>k. k \<noteq> c) (xs @ [b]) = dropWhile (\<lambda>k. k \<noteq> c) xs @ [b]"
    by (simp add: dropWhile_append1)
  with ne show ?thesis by simp
qed

lemma dropWhile_snoc_fresh:
  assumes "b \<notin> set xs"
  shows "dropWhile (\<lambda>k. k \<noteq> b) (xs @ [b]) = [b]"
  using assms by (induction xs) auto

lemma top_category_last_maximal:
  assumes "distinct (k # ks)" "set (k # ks) \<subseteq> fst ` set totals"
    and nan: "\<And>c. total_at totals c \<noteq> NaN"
  shows "last_maximal (total_at totals) (k # ks)
           (foldl (\<lambda>a b. if greater_total totals a b then a else b) k ks)"
  using assms(1,2)
proof (induction ks rule: rev_induct)
  case Nil
  then show ?case by (simp add: last_maximal_def js_gt_irrefl)
next
  case (snoc b ks)
  let ?f = "total_at totals"
  let ?r = "foldl (\<lambda>a b. if greater_total totals a b then a else b) k ks"
  define xs where "xs = k # ks"
  from snoc.prems have d: "distinct (k # ks)" "set (k # ks) \<subseteq> fst ` set totals"
    and b: "b \<notin> set xs" "b \<in> fst ` set totals" by (auto simp: xs_def)
  from snoc.IH [OF d] have r: "?r \<in> set xs" "list_all (\<lambda>x. \<not> js_gt (?f x) (?f ?r)) xs"
    "list_all (\<lambda>x. js_gt (?f ?r) (?f x)) (tl (dropWhile (\<lambda>x. x \<noteq> ?r) xs))"
    unfolding last_maximal_def xs_def by blast+
  from r(1) d(2) have "?r \<in> fst ` set totals" unfolding xs_def by blast
  from this b(2) have g: "greater_total totals ?r b \<longleftrightarrow> js_gt (?f ?r) (?f b)"
    by (rule greater_total_present)
  have step: "foldl (\<lambda>a b. if greater_total totals a b then a else b) k (ks @ [b])
              = (if js_gt (?f ?r) (?f b) then ?r else b)"
    by (simp add: g)
  have "last_maximal ?f (xs @ [b]) (if js_gt (?f ?r) (?f b) then ?r else b)"
  proof (cases "js_gt (?f ?r) (?f b)")
    case True
    have "tl (dropWhile (\<lambda>x. x \<noteq> ?r) (xs @ [b])) = tl (dropWhile (\<lambda>x. x \<noteq> ?r) xs) @ [b]"
      using r(1) by (rule dropWhile_snoc_mem)
    with True r js_gt_asym [OF True] show ?thesis
      unfolding last_maximal_def by simp
  next
    case False
    have dw: "dropWhile (\<lambda>x. x \<noteq> b) (xs @ [b]) = [b]"
      using b(1) by (rule dropWhile_snoc_fresh)
    have "\<not> js_gt (?f x) (?f b)" if "x \<in> set xs" for x
    proof -
      from that r(2) have "\<not> js_gt (?f x) (?f ?r)" by (simp add: list_all_iff)
      from js_gt_negtrans [OF nan this False] show ?thesis .
    qed
    then have "list_all (\<lambda>x. \<not> js_gt (?f x) (?f b)) xs"
      by (simp add: list_all_iff)
    with False dw show ?thesis
      unfolding last_maximal_def by (simp add: js_gt_irrefl)
  qed
  then show ?case unfolding step xs_def by simp
qed

lemma findTopExpenseCategory_last_maximal:
  assumes "expense_categories ts \<noteq> []" "plain_categories ts"
  shows "\<exists>c. findTopExpenseCategory ts = Some (Inr c) \<and>
             last_maximal (category_total ts) (expense_categories ts) c"
proof -
  from assms(2) obtain totals where t: "categoryTotals ts = Some totals"
    by (simp add: categoryTotals_plain)
  from assms obtain k ks where ks: "expense_categories ts = k # ks"
    by (cases "expense_categories ts") auto
  then have keys: "Object_keys totals = k # ks"
    using keys_categoryTotals [OF t assms(2)] by simp
  have eq: "total_at totals = category_total ts"
    by (rule ext) (rule total_at_categoryTotals [OF t assms(2)])
  have "distinct (k # ks)" using distinct_expense_categories [of ts] ks by simp
  moreover have "set (k # ks) \<subseteq> fst ` set totals"
    using set_Object_keys [of totals] keys by simp
  moreover have "total_at totals c \<noteq> NaN" for c
    by (simp add: eq category_total_not_NaN)
  ultimately have "last_maximal (total_at totals) (k # ks)
           (foldl (\<lambda>a b. if greater_total totals a b then a else b) k ks)"
    by (rule top_category_last_maximal)
  then have "last_maximal (category_total ts) (expense_categories ts)
           (foldl (\<lambda>a b. if greater_total totals a b then a else b) k ks)"
    using ks eq by simp
  moreover have "findTopExpenseCategory ts
                 = Some (Inr (foldl (\<lambda>a b. if greater_total totals a b then a else b) k ks))"
    by (simp add: findTopExpenseCategory_def keys t)
  ultimately show ?thesis by blast
qed

lemma totalSpent_expense_total:
  "foldl (\<lambda>acc curr. js_add acc (Fin (amount curr))) (Fin 0) (filter (\<lambda>t. type t = ''expense'') ts)
   = expense_total ts"
  by (simp add: expense_total_def double_sum_map)

text \<open>
  Claim C10, as amended. For every transaction list and monthly budget, with the
  surplus the budget minus the total of the expenses (the amounts added to 0 in the
  order of the list, in double arithmetic): when the surplus is positive the recommender
  returns the message of type positive that suggests the 70/30 split; when the surplus
  is not positive, some transaction is an expense and no category of an expense names a
  member of \<^verbatim>\<open>Object.prototype\<close>, it returns the warning that names the overspend
  \<open>\<bar>surplus\<bar>\<close> and the category with the highest total of expenses, a tie going to
  the last such category in the order of \<^verbatim>\<open>Object.keys\<close>. With a budget of 500 and
  expenses of 400 for food and 200 for rent, the warning names food and the overspend
  100.
\<close>

theorem surplus_recommendations_spec:
  "(js_gt (js_sub monthlyBudget (expense_total ts)) (Fin 0) \<longrightarrow>
      surplus_recommendations str ts monthlyBudget =
        Some (Inr \<lparr>s_type = ''positive'',
             s_message = ''You have a surplus of $''
               @ str (js_sub monthlyBudget (expense_total ts))
               @ ''. Recommend: 70% to savings, 30% to emergency fund.''\<rparr>)) \<and>
   (\<not> js_gt (js_sub monthlyBudget (expense_total ts)) (Fin 0) \<and>
    (\<exists>t\<in>set ts. type t = ''expense'') \<and> plain_categories ts \<longrightarrow>
      (\<exists>c. last_maximal (category_total ts) (expense_categories ts) c \<and>
           surplus_recommendations str ts monthlyBudget =
             Some (Inr \<lparr>s_type = ''warning'',
                  s_message = ''Over budget by $''
                    @ str (Math_abs (js_sub monthlyBudget (expense_total ts)))
                    @ ''. Consider reducing spending in '' @ c @ ''.''\<rparr>))) \<and>
   surplus_recommendations str
     [tx ''expense'' 400 ''food'' 2024 3 5, tx ''expense'' 200 ''rent'' 2024 3 6] (Fin 500) =
     Some (Inr \<lparr>s_type = ''warning'',
          s_message = ''Over budget by $'' @ str (Fin 100)
            @ ''. Consider reducing spending in food.''\<rparr>)"
proof (intro conjI impI)
  assume "js_gt (js_sub monthlyBudget (expense_total ts)) (Fin 0)"
  then show "surplus_recommendations str ts monthlyBudget =
        Some (Inr \<lparr>s_type = ''positive'',
             s_message = ''You have a surplus of $''
               @ str (js_sub monthlyBudget (expense_total ts))
               @ ''. Recommend: 70% to savings, 30% to emergency fund.''\<rparr>)"
    by (simp add: surplus_recommendations_def totalSpent_expense_total)
next
  assume h: "\<not> js_gt (js_sub monthlyBudget (expense_total ts)) (Fin 0) \<and>
    (\<exists>t\<in>set ts. type t = ''expense'') \<and> plain_categories ts"
  then obtain t where "t \<in> set ts" "type t = ''expense''" by blast
  then have "category t \<in> set (expense_categories ts)"
    by (simp add: set_expense_categories)
  then have "expense_categories ts \<noteq> []" by auto
  with h obtain c where c: "findTopExpenseCategory ts = Some (Inr c)"
    "last_maximal (category_total ts) (expense_categories ts) c"
    using findTopExpenseCategory_last_maximal by blast
  from h c(1) have "surplus_recommendations str ts monthlyBudget =
             Some (Inr \<lparr>s_type = ''warning'',
                  s_message = ''Over budget by $''
                    @ str (Math_abs (js_sub monthlyBudget (expense_total ts)))
                    @ ''. Consider reducing spending in '' @ c @ ''.''\<rparr>)"
    by (simp add: surplus_recommendations_def totalSpent_expense_total)
  with c(2) show "\<exists>c. last_maximal (category_total ts) (expense_categories ts) c \<and>
           surplus_recommendations str ts monthlyBudget =
             Some (Inr \<lparr>s_type = ''warning'',
                  s_message = ''Over budget by $''
                    @ str (Math_abs (js_sub monthlyBudget (expense_total ts)))
                    @ ''. Consider reducing spending in '' @ c @ ''.''\<rparr>)"
    by blast
next
  show "surplus_recommendations str
     [tx ''expense'' 400 ''food'' 2024 3 5, tx ''expense'' 200 ''rent'' 2024 3 6] (Fin 500) =
     Some (Inr \<lparr>s_type = ''warning'',
          s_message = ''Over budget by $'' @ str (Fin 100)
            @ ''. Consider reducing spending in food.''\<rparr>)"
    by (simp add: surplus_recommendations_def findTopExpenseCategory_def categoryTotals_def
        total_step_def Object_keys_def own_keys_order_def is_array_index_def is_digit_def
        greater_total_def tx_def Object_prototype_names_def js_sub_def rnd64_int)
qed

lemmas surplus_eval = surplus_recommendations_def findTopExpenseCategory_def categoryTotals_def
        total_step_def Object_keys_def own_keys_order_def is_array_index_def is_digit_def
        greater_total_def tx_def expense_total_def nat_to_string.simps
        digit_char_def expense_categories_def category_total_def last_maximal_def
        Object_prototype_names_def js_sub_def rnd64_int double_sum_def sum_from_def
        plain_categories_def

theorem surplus_recommendations_spec_witness:
  "js_gt (js_sub (Fin 1000)
      (expense_total [tx ''expense'' 300 ''food'' 2024 3 5, tx ''expense'' 300 ''rent'' 2024 3 6]))
      (Fin 0) \<and>
   surplus_recommendations integer_to_string
     [tx ''expense'' 300 ''food'' 2024 3 5, tx ''expense'' 300 ''rent'' 2024 3 6] (Fin 1000) =
     Some (Inr \<lparr>s_type = ''positive'',
          s_message = ''You have a surplus of $400. Recommend: 70% to savings, 30% to emergency fund.''\<rparr>) \<and>
   \<not> js_gt (js_sub (Fin 500)
      (expense_total [tx ''expense'' 300 ''food'' 2024 3 5, tx ''expense'' 300 ''rent'' 2024 3 6]))
      (Fin 0) \<and>
   list_ex (\<lambda>t. type t = ''expense'') [tx ''expense'' 300 ''food'' 2024 3 5, tx ''expense'' 300 ''rent'' 2024 3 6] \<and>
   plain_categories [tx ''expense'' 300 ''food'' 2024 3 5, tx ''expense'' 300 ''rent'' 2024 3 6] \<and>
   (\<exists>c. last_maximal (category_total [tx ''expense'' 300 ''food'' 2024 3 5, tx ''expense'' 300 ''rent'' 2024 3 6])
          (expense_categories [tx ''expense'' 300 ''food'' 2024 3 5, tx ''expense'' 300 ''rent'' 2024 3 6]) c \<and>
        surplus_recommendations integer_to_string
          [tx ''expense'' 300 ''food'' 2024 3 5, tx ''expense'' 300 ''rent'' 2024 3 6] (Fin 500) =
          Some (Inr \<lparr>s_type = ''warning'',
               s_message = ''Over budget by $100. Consider reducing spending in '' @ c @ ''.''\<rparr>))"
proof -
  let ?ts = "[tx ''expense'' 300 ''food'' 2024 3 5, tx ''expense'' 300 ''rent'' 2024 3 6]"
  have e: "expense_total ?ts = Fin 600"
    by (simp add: expense_total_def double_sum_def sum_from_def tx_def rnd64_int)
  have s1: "js_sub (Fin 1000) (Fin 600) = Fin 400" and s2: "js_sub (Fin 500) (Fin 600) = Fin (- 100)"
    by (simp_all add: js_sub_def rnd64_int)
  have p: "js_gt (js_sub (Fin 1000) (expense_total ?ts)) (Fin 0)" by (simp add: e s1)
  have n: "\<not> js_gt (js_sub (Fin 500) (expense_total ?ts)) (Fin 0)" by (simp add: e s2)
  have x: "\<exists>t\<in>set ?ts. type t = ''expense''" by (simp add: tx_def)
  have pl: "plain_categories ?ts"
    by (simp add: plain_categories_def tx_def Object_prototype_names_def)
  have s400: "nat_to_string 400 = ''400''" and s100: "nat_to_string 100 = ''100''"
    by (simp_all add: nat_to_string.simps digit_char_def)
  note pos = surplus_recommendations_spec [of "Fin 1000" ?ts integer_to_string, THEN conjunct1,
      THEN mp, OF p]
  note neg = surplus_recommendations_spec [of "Fin 500" ?ts integer_to_string, THEN conjunct2,
      THEN conjunct1, THEN mp, OF conjI [OF n conjI [OF x pl]]]
  from pos
  have 1: "surplus_recommendations integer_to_string ?ts (Fin 1000) =
     Some (Inr \<lparr>s_type = ''positive'',
          s_message = ''You have a surplus of $400. Recommend: 70% to savings, 30% to emergency fund.''\<rparr>)"
    by (simp add: e s1 s400)
  from neg
  have 2: "\<exists>c. last_maximal (category_total ?ts) (expense_categories ?ts) c \<and>
        surplus_recommendations integer_to_string ?ts (Fin 500) =
          Some (Inr \<lparr>s_type = ''warning'',
               s_message = ''Over budget by $100. Consider reducing spending in '' @ c @ ''.''\<rparr>)"
    by (simp add: e s2 s100)
  from p n x pl 1 2 show ?thesis by (simp add: list_ex_iff)
qed

text \<open>
  The claim as stated breaks a tie in favour of the first key. The \<^verbatim>\<open>reduce\<close> keeps the
  accumulated key only when its total is strictly greater, so the later key wins: food
  and rent both total 300, food is the first key, and the warning names rent.
\<close>

theorem findTopExpenseCategory_tie_counterexample:
  "surplus_recommendations integer_to_string
     [tx ''expense'' 300 ''food'' 2024 3 5, tx ''expense'' 300 ''rent'' 2024 3 6] (Fin 500) =
     Some (Inr \<lparr>s_type = ''warning'',
          s_message = ''Over budget by $100. Consider reducing spending in rent.''\<rparr>) \<and>
   map_option Object_keys
     (categoryTotals [tx ''expense'' 300 ''food'' 2024 3 5, tx ''expense'' 300 ''rent'' 2024 3 6])
     = Some [''food'', ''rent''] \<and>
   category_total [tx ''expense'' 300 ''food'' 2024 3 5, tx ''expense'' 300 ''rent'' 2024 3 6] ''food''
     = category_total [tx ''expense'' 300 ''food'' 2024 3 5, tx ''expense'' 300 ''rent'' 2024 3 6] ''rent''"
  by (simp add: surplus_eval)

text \<open>
  With no expense at all and a budget that is not positive the \<^verbatim>\<open>reduce\<close> runs on
  the empty array and throws. An expense whose category is \<^verbatim>\<open>constructor\<close> reads the
  inherited member as its total, and the run leaves the model.
\<close>

lemma surplus_recommendations_no_expense:
  "surplus_recommendations str [] (Fin 0) = Some (Inl TypeError)"
  by (simp add: surplus_eval rnd64_zero)

lemma surplus_recommendations_inherited_name:
  "surplus_recommendations str [tx ''expense'' 100 ''constructor'' 2024 3 5] (Fin 0) = None"
  by (simp add: surplus_eval)

end
